theory Spec2Isabelle
  imports Main
begin

section \<open>Python values, exceptions and the input record\<close>

text \<open>
  The values an input record of a dataset example can hold. A dict is an association
  list in insertion order (Python dicts keep it; \<open>next(iter(d.values()))\<close> reads the
  first entry), whose keys are pairwise distinct; \<open>PObj\<close> is an instance of a class,
  given by the class name and its attributes.
\<close>

datatype pyval =
    PNone
  | PBool bool
  | PInt int
  | PStr string
  | PList "pyval list"
  | PDict "(string \<times> pyval) list"
  | PObj string "(string \<times> pyval) list"

type_synonym inputs = "(string \<times> pyval) list"

text \<open>\<open>type(v).__name__\<close>\<close>

fun type_name :: "pyval \<Rightarrow> string" where
  "type_name PNone = ''NoneType''"
| "type_name (PBool _) = ''bool''"
| "type_name (PInt _) = ''int''"
| "type_name (PStr _) = ''str''"
| "type_name (PList _) = ''list''"
| "type_name (PDict _) = ''dict''"
| "type_name (PObj c _) = c"

text \<open>\<open>isinstance(v, str)\<close>, \<open>isinstance(v, list)\<close>, \<open>isinstance(v, dict)\<close>\<close>

fun is_str :: "pyval \<Rightarrow> bool" where
  "is_str (PStr _) = True"
| "is_str _ = False"

fun is_list :: "pyval \<Rightarrow> bool" where
  "is_list (PList _) = True"
| "is_list _ = False"

fun is_dict :: "pyval \<Rightarrow> bool" where
  "is_dict (PDict _) = True"
| "is_dict _ = False"

fun the_list :: "pyval \<Rightarrow> pyval list" where
  "the_list (PList xs) = xs"
| "the_list _ = []"

text \<open>
  The exceptions of class \<open>Exception\<close> the code raises or meets, each with its message
  (\<open>str(e)\<close>); \<open>OtherException\<close> is any other subclass of \<open>Exception\<close>, with its class
  name, as a collaborator may raise it.
\<close>

datatype exn =
    InputFormatError string
  | ValueError string
  | OtherException string string

fun str_exn :: "exn \<Rightarrow> string" where
  "str_exn (InputFormatError m) = m"
| "str_exn (ValueError m) = m"
| "str_exn (OtherException _ m) = m"

fun is_InputFormatError :: "exn \<Rightarrow> bool" where
  "is_InputFormatError (InputFormatError _) = True"
| "is_InputFormatError _ = False"

text \<open>\<open>key in inputs\<close> and \<open>inputs[key]\<close> for a key that is there.\<close>

definition has_key :: "inputs \<Rightarrow> string \<Rightarrow> bool" where
  "has_key inputs k = (map_of inputs k \<noteq> None)"

definition item :: "inputs \<Rightarrow> string \<Rightarrow> pyval" where
  "item inputs k = (case map_of inputs k of Some v \<Rightarrow> v | None \<Rightarrow> PNone)"

text \<open>\<open>next(iter(inputs.values()))\<close> on a record that is not empty.\<close>

definition first_value :: "inputs \<Rightarrow> pyval" where
  "first_value inputs = (case inputs of [] \<Rightarrow> PNone | (k, v) # _ \<Rightarrow> v)"

text \<open>A message: its role and its content.\<close>

datatype message = Message string pyval

definition HumanMessage :: "pyval \<Rightarrow> message" where
  "HumanMessage c = Message ''human'' c"

text \<open>
  What the code takes from the Python runtime and from the library around it:
  how a dict is printed inside an f-string, how one message-dict is deserialised, and
  how a message sequence is flattened to a buffer string. The last two can raise.
\<close>

record runtime =
  repr_inputs :: "inputs \<Rightarrow> string"
  message_from_dict :: "pyval \<Rightarrow> exn + message"
  get_buffer_string :: "message list \<Rightarrow> exn + string"

text \<open>A list comprehension whose body can raise: the first exception ends it.\<close>

fun map_raise :: "('a \<Rightarrow> exn + 'b) \<Rightarrow> 'a list \<Rightarrow> exn + 'b list" where
  "map_raise f [] = Inr []"
| "map_raise f (x # xs) =
     (case f x of
        Inl e \<Rightarrow> Inl e
      | Inr y \<Rightarrow> (case map_raise f xs of Inl e \<Rightarrow> Inl e | Inr ys \<Rightarrow> Inr (y # ys)))"

text \<open>
  Modelled from the spec: \<open>messages_from_dict\<close> of \<open>langchain.schema\<close>, which is not
  among the sources. The spec: "Each message-dict is deserialized into a typed message
  (role-tagged content)."
\<close>

definition messages_from_dict :: "runtime \<Rightarrow> pyval list \<Rightarrow> exn + message list" where
  "messages_from_dict rt batch = map_raise (message_from_dict rt) batch"

section \<open>The input adapters\<close>

definition get_prompts :: "runtime \<Rightarrow> inputs \<Rightarrow> exn + pyval list" where
  "get_prompts rt inputs =
     (if inputs = [] then Inl (InputFormatError ''Inputs should not be empty.'')
      else if has_key inputs ''prompt'' then
        (if \<not> is_str (item inputs ''prompt'')
         then Inl (InputFormatError
                (''Expected string for 'prompt', got '' @ type_name (item inputs ''prompt'')))
         else Inr [item inputs ''prompt''])
      else if has_key inputs ''prompts'' then
        (if \<not> is_list (item inputs ''prompts'')
            \<or> \<not> list_all is_str (the_list (item inputs ''prompts''))
         then Inl (InputFormatError
                (''Expected list of strings for 'prompts', got ''
                 @ type_name (item inputs ''prompts'')))
         else Inr (the_list (item inputs ''prompts'')))
      else if length inputs = 1 then
        (let prompt' = first_value inputs in
         if is_str prompt' then Inr [prompt']
         else if is_list prompt' \<and> list_all is_str (the_list prompt')
         then Inr (the_list prompt')
         else Inl (InputFormatError
                (''LLM Run expects string prompt input. Got '' @ repr_inputs rt inputs)))
      else Inl (InputFormatError
             (''LLM Run expects 'prompt' or 'prompts' in inputs. Got ''
              @ repr_inputs rt inputs)))"

definition get_messages :: "runtime \<Rightarrow> inputs \<Rightarrow> exn + message list list" where
  "get_messages rt inputs =
     (if inputs = [] then Inl (InputFormatError ''Inputs should not be empty.'')
      else
        (case (if has_key inputs ''messages'' then Inr (item inputs ''messages'')
               else if length inputs = 1 then Inr (first_value inputs)
               else Inl (InputFormatError
                      (''Chat Run expects 'messages' in inputs. Got ''
                       @ repr_inputs rt inputs))) of
           Inl e \<Rightarrow> Inl e
         | Inr single_input \<Rightarrow>
             (case (if is_list single_input \<and> list_all is_dict (the_list single_input)
                    then Inr [single_input]
                    else if is_list single_input \<and> list_all is_list (the_list single_input)
                    then Inr (the_list single_input)
                    else Inl (InputFormatError
                           (''Chat Run expects List[dict] or List[List[dict]] 'messages' input. Got ''
                            @ repr_inputs rt inputs))) of
                Inl e \<Rightarrow> Inl e
              | Inr raw_messages \<Rightarrow>
                  map_raise (\<lambda>batch. messages_from_dict rt (the_list batch)) raw_messages)))"


section \<open>Tasks, callback handlers and the state of a run\<close>

text \<open>
  An example of the dataset: its identifier (a UUID in the source) and its input record.
\<close>

datatype uuid = UUID nat

record example =
  ex_id :: uuid
  ex_inputs :: inputs

text \<open>
  A callback handler is an object on the heap. Its attribute \<open>example_id\<close> may be
  missing (\<open>None\<close> here), or hold Python's \<open>None\<close> or an identifier. The list of
  callbacks holds addresses, so the same handler may stand in it twice.
\<close>

type_synonym addr = nat

record handler =
  handler_class :: string
  example_id :: "uuid option option"

type_synonym store = "addr \<Rightarrow> handler"
type_synonym callbacks = "addr list option"
type_synonym tags = "string list option"

text \<open>
  The argument of the model's batch-generate operation, and the log of the calls the
  code makes to the task: a batch-generate call with its input, callbacks and tags, the
  construction of a chain by the factory, a call of a chain.
\<close>

datatype gen_arg = Prompts "pyval list" | MessageBatches "message list list"

datatype call =
    Generate gen_arg callbacks tags
  | Construct
  | Invoke inputs callbacks tags

text \<open>
  The state a run threads through: the handler objects, the next free address, the log
  of calls, and the state \<open>'w\<close> of the collaborators (the model behind the task, the
  trace storage), which only they read and change.
\<close>

record 'w state =
  handlers :: store
  next_addr :: addr
  calls :: "call list"
  ext :: 'w

text \<open>
  A collaborator's operation sees the handlers it is given as they are at the call, may
  raise, and changes the collaborators' state; it does not rebind the \<open>example_id\<close> of
  a handler, which only the repetition loop does.
\<close>

type_synonym ('a, 'w) operation =
  "'a \<Rightarrow> handler list option \<Rightarrow> tags \<Rightarrow> 'w \<Rightarrow> (exn + pyval) \<times> 'w"

datatype lm_kind = BaseLLM | BaseChatModel | OtherLanguageModel

record 'w language_model =
  lm_kind :: lm_kind
  lm_class_name :: string
  lm_type :: string
  generate :: "(gen_arg, 'w) operation"
  agenerate :: "(gen_arg, 'w) operation"

record 'w chain =
  chain_class_name :: string
  call_chain :: "(inputs, 'w) operation"
  acall :: "(inputs, 'w) operation"

text \<open>
  \<open>MODEL_OR_CHAIN_FACTORY\<close>: an instance of \<open>BaseLanguageModel\<close>, or anything else,
  which the code calls with no argument to get a chain (the call may raise).
\<close>

datatype 'w task =
    LanguageModel "'w language_model"
  | ChainFactory "'w \<Rightarrow> (exn + 'w chain) \<times> 'w"

definition call_generate ::
  "(gen_arg, 'w) operation \<Rightarrow> gen_arg \<Rightarrow> callbacks \<Rightarrow> tags \<Rightarrow> 'w state
     \<Rightarrow> (exn + pyval) \<times> 'w state" where
  "call_generate gen arg cbs tgs s =
     (case gen arg (map_option (map (handlers s)) cbs) tgs (ext s) of
        (r, w) \<Rightarrow> (r, s\<lparr>calls := calls s @ [Generate arg cbs tgs], ext := w\<rparr>))"

definition call_factory ::
  "('w \<Rightarrow> (exn + 'w chain) \<times> 'w) \<Rightarrow> 'w state \<Rightarrow> (exn + 'w chain) \<times> 'w state" where
  "call_factory factory s =
     (case factory (ext s) of
        (r, w) \<Rightarrow> (r, s\<lparr>calls := calls s @ [Construct], ext := w\<rparr>))"

definition call_invoke ::
  "(inputs, 'w) operation \<Rightarrow> inputs \<Rightarrow> callbacks \<Rightarrow> tags \<Rightarrow> 'w state
     \<Rightarrow> (exn + pyval) \<times> 'w state" where
  "call_invoke f inp cbs tgs s =
     (case f inp (map_option (map (handlers s)) cbs) tgs (ext s) of
        (r, w) \<Rightarrow> (r, s\<lparr>calls := calls s @ [Invoke inp cbs tgs], ext := w\<rparr>))"

section \<open>Running a language model on one input record\<close>

text \<open>
  \<open>run_llm\<close> and \<open>_arun_llm\<close>. The \<open>try\<close> block holds the resolution of the input and
  the call of the model, so an \<open>InputFormatError\<close> of either reaches the handler; in
  \<open>run_llm\<close> the fallback of a \<open>BaseLLM\<close> calls \<open>generate\<close> without \<open>tags\<close>, whose
  default is \<open>None\<close>.
\<close>

definition run_llm ::
  "runtime \<Rightarrow> 'w language_model \<Rightarrow> inputs \<Rightarrow> callbacks \<Rightarrow> tags \<Rightarrow> 'w state
     \<Rightarrow> (exn + pyval) \<times> 'w state" where
  "run_llm rt llm inps cbs tgs s =
     (case lm_kind llm of
        BaseLLM \<Rightarrow>
          (case (case get_prompts rt inps of
                   Inl e \<Rightarrow> (Inl e, s)
                 | Inr llm_prompts \<Rightarrow>
                     call_generate (generate llm) (Prompts llm_prompts) cbs tgs s) of
             (Inr llm_output, s1) \<Rightarrow> (Inr llm_output, s1)
           | (Inl e, s1) \<Rightarrow>
               if is_InputFormatError e then
                 (case get_messages rt inps of
                    Inl e2 \<Rightarrow> (Inl e2, s1)
                  | Inr llm_messages \<Rightarrow>
                      (case map_raise (get_buffer_string rt) llm_messages of
                         Inl e3 \<Rightarrow> (Inl e3, s1)
                       | Inr buffer_strings \<Rightarrow>
                           call_generate (generate llm) (Prompts (map PStr buffer_strings))
                             cbs None s1))
               else (Inl e, s1))
      | BaseChatModel \<Rightarrow>
          (case (case get_messages rt inps of
                   Inl e \<Rightarrow> (Inl e, s)
                 | Inr messages \<Rightarrow>
                     call_generate (generate llm) (MessageBatches messages) cbs tgs s) of
             (Inr llm_output, s1) \<Rightarrow> (Inr llm_output, s1)
           | (Inl e, s1) \<Rightarrow>
               if is_InputFormatError e then
                 (case get_prompts rt inps of
                    Inl e2 \<Rightarrow> (Inl e2, s1)
                  | Inr prompts \<Rightarrow>
                      call_generate (generate llm)
                        (MessageBatches (map (\<lambda>prompt. [HumanMessage prompt]) prompts))
                        cbs tgs s1)
               else (Inl e, s1))
      | OtherLanguageModel \<Rightarrow>
          (Inl (ValueError (''Unsupported LLM type '' @ lm_type llm)), s))"

definition arun_llm ::
  "runtime \<Rightarrow> 'w language_model \<Rightarrow> inputs \<Rightarrow> tags \<Rightarrow> callbacks \<Rightarrow> 'w state
     \<Rightarrow> (exn + pyval) \<times> 'w state" where
  "arun_llm rt llm inps tgs cbs s =
     (case lm_kind llm of
        BaseLLM \<Rightarrow>
          (case (case get_prompts rt inps of
                   Inl e \<Rightarrow> (Inl e, s)
                 | Inr llm_prompts \<Rightarrow>
                     call_generate (agenerate llm) (Prompts llm_prompts) cbs tgs s) of
             (Inr llm_output, s1) \<Rightarrow> (Inr llm_output, s1)
           | (Inl e, s1) \<Rightarrow>
               if is_InputFormatError e then
                 (case get_messages rt inps of
                    Inl e2 \<Rightarrow> (Inl e2, s1)
                  | Inr llm_messages \<Rightarrow>
                      (case map_raise (get_buffer_string rt) llm_messages of
                         Inl e3 \<Rightarrow> (Inl e3, s1)
                       | Inr buffer_strings \<Rightarrow>
                           call_generate (agenerate llm) (Prompts (map PStr buffer_strings))
                             cbs tgs s1))
               else (Inl e, s1))
      | BaseChatModel \<Rightarrow>
          (case (case get_messages rt inps of
                   Inl e \<Rightarrow> (Inl e, s)
                 | Inr messages \<Rightarrow>
                     call_generate (agenerate llm) (MessageBatches messages) cbs tgs s) of
             (Inr llm_output, s1) \<Rightarrow> (Inr llm_output, s1)
           | (Inl e, s1) \<Rightarrow>
               if is_InputFormatError e then
                 (case get_prompts rt inps of
                    Inl e2 \<Rightarrow> (Inl e2, s1)
                  | Inr prompts \<Rightarrow>
                      call_generate (agenerate llm)
                        (MessageBatches (map (\<lambda>prompt. [HumanMessage prompt]) prompts))
                        cbs tgs s1)
               else (Inl e, s1))
      | OtherLanguageModel \<Rightarrow>
          (Inl (ValueError (''Unsupported LLM type '' @ lm_type llm)), s))"


section \<open>The repetition loop\<close>

text \<open>
  \<open>hasattr(tracer, "example_id")\<close>, \<open>getattr(tracer, "example_id", None)\<close> and the
  guarded assignment \<open>if hasattr(tracer, "example_id"): tracer.example_id = v\<close>.
\<close>

definition hasattr_example_id :: "handler \<Rightarrow> bool" where
  "hasattr_example_id h = (example_id h \<noteq> None)"

definition getattr_example_id :: "handler \<Rightarrow> uuid option" where
  "getattr_example_id h = (case example_id h of None \<Rightarrow> None | Some v \<Rightarrow> v)"

definition set_example_id :: "uuid option \<Rightarrow> addr \<Rightarrow> store \<Rightarrow> store" where
  "set_example_id v tracer hs =
     (if hasattr_example_id (hs tracer)
      then hs(tracer := (hs tracer)\<lparr>example_id := Some v\<rparr>)
      else hs)"

text \<open>Python's truth value of an optional list: \<open>None\<close> and \<open>[]\<close> are false.\<close>

definition truthy :: "'a list option \<Rightarrow> bool" where
  "truthy xs = (case xs of None \<Rightarrow> False | Some l \<Rightarrow> l \<noteq> [])"

text \<open>
  The head of the loop: the identifiers the handlers hold are saved, then every handler
  with the attribute is bound to the example.
\<close>

definition save_example_ids :: "callbacks \<Rightarrow> 'w state \<Rightarrow> uuid option list option" where
  "save_example_ids cbs s =
     (case cbs of
        None \<Rightarrow> None
      | Some l \<Rightarrow> if l = [] then None else Some (map (\<lambda>tracer. getattr_example_id (handlers s tracer)) l))"

definition bind_example_ids :: "example \<Rightarrow> callbacks \<Rightarrow> 'w state \<Rightarrow> 'w state" where
  "bind_example_ids ex cbs s =
     (case cbs of
        None \<Rightarrow> s
      | Some l \<Rightarrow>
          if l = [] then s
          else s\<lparr>handlers := fold (set_example_id (Some (ex_id ex))) l (handlers s)\<rparr>)"

text \<open>The tail of the loop: \<open>zip(previous_example_ids, callbacks)\<close> is written back.\<close>

definition restore_example_ids ::
  "uuid option list option \<Rightarrow> callbacks \<Rightarrow> 'w state \<Rightarrow> 'w state" where
  "restore_example_ids previous_example_ids cbs s =
     (if truthy cbs \<and> truthy previous_example_ids then
        (case (previous_example_ids, cbs) of
           (Some prev, Some l) \<Rightarrow>
             s\<lparr>handlers := fold (\<lambda>(example_id, tracer). set_example_id example_id tracer)
                              (zip prev l) (handlers s)\<rparr>
         | _ \<Rightarrow> s)
      else s)"

text \<open>
  The body of the \<open>try\<close> block of one attempt, in \<open>run_llm_or_chain\<close> and in
  \<open>_arun_llm_or_chain\<close>.
\<close>

definition try_attempt ::
  "runtime \<Rightarrow> example \<Rightarrow> 'w task \<Rightarrow> tags \<Rightarrow> callbacks \<Rightarrow> 'w state
     \<Rightarrow> (exn + pyval) \<times> 'w state" where
  "try_attempt rt ex llm_or_chain_factory tgs cbs s =
     (case llm_or_chain_factory of
        LanguageModel llm \<Rightarrow> run_llm rt llm (ex_inputs ex) cbs tgs s
      | ChainFactory factory \<Rightarrow>
          (case call_factory factory s of
             (Inl e, s1) \<Rightarrow> (Inl e, s1)
           | (Inr chain, s1) \<Rightarrow> call_invoke (call_chain chain) (ex_inputs ex) cbs tgs s1))"

definition atry_attempt ::
  "runtime \<Rightarrow> example \<Rightarrow> 'w task \<Rightarrow> tags \<Rightarrow> callbacks \<Rightarrow> 'w state
     \<Rightarrow> (exn + pyval) \<times> 'w state" where
  "atry_attempt rt ex llm_or_chain_factory tgs cbs s =
     (case llm_or_chain_factory of
        LanguageModel llm \<Rightarrow> arun_llm rt llm (ex_inputs ex) tgs cbs s
      | ChainFactory factory \<Rightarrow>
          (case call_factory factory s of
             (Inl e, s1) \<Rightarrow> (Inl e, s1)
           | (Inr chain, s1) \<Rightarrow> call_invoke (acall chain) (ex_inputs ex) cbs tgs s1))"

text \<open>
  One attempt with its \<open>except Exception\<close>: what is appended to \<open>outputs\<close> is the output,
  or the dictionary \<open>{"Error": str(e)}\<close>.
\<close>

definition error_record :: "exn \<Rightarrow> pyval" where
  "error_record e = PDict [(''Error'', PStr (str_exn e))]"

definition attempt ::
  "('w state \<Rightarrow> (exn + pyval) \<times> 'w state) \<Rightarrow> 'w state \<Rightarrow> pyval \<times> 'w state" where
  "attempt body s =
     (case body s of
        (Inr output, s1) \<Rightarrow> (output, s1)
      | (Inl e, s1) \<Rightarrow> (error_record e, s1))"

text \<open>\<open>for _ in range(n_repetitions)\<close>, with \<open>outputs\<close> as it grows.\<close>

fun repeat_attempts ::
  "('w state \<Rightarrow> (exn + pyval) \<times> 'w state) \<Rightarrow> nat \<Rightarrow> pyval list \<Rightarrow> 'w state
     \<Rightarrow> pyval list \<times> 'w state" where
  "repeat_attempts body 0 outputs s = (outputs, s)"
| "repeat_attempts body (Suc n) outputs s =
     (case attempt body s of (out, s1) \<Rightarrow> repeat_attempts body n (outputs @ [out]) s1)"

definition run_llm_or_chain ::
  "runtime \<Rightarrow> example \<Rightarrow> 'w task \<Rightarrow> int \<Rightarrow> tags \<Rightarrow> callbacks \<Rightarrow> 'w state
     \<Rightarrow> pyval list \<times> 'w state" where
  "run_llm_or_chain rt ex llm_or_chain_factory n_repetitions tgs cbs s =
     (let previous_example_ids = save_example_ids cbs s;
          s1 = bind_example_ids ex cbs s
      in case repeat_attempts (try_attempt rt ex llm_or_chain_factory tgs cbs)
                (nat n_repetitions) [] s1 of
           (outputs, s2) \<Rightarrow> (outputs, restore_example_ids previous_example_ids cbs s2))"

definition arun_llm_or_chain ::
  "runtime \<Rightarrow> example \<Rightarrow> 'w task \<Rightarrow> int \<Rightarrow> tags \<Rightarrow> callbacks \<Rightarrow> 'w state
     \<Rightarrow> pyval list \<times> 'w state" where
  "arun_llm_or_chain rt ex llm_or_chain_factory n_repetitions tgs cbs s =
     (let previous_example_ids = save_example_ids cbs s;
          s1 = bind_example_ids ex cbs s
      in case repeat_attempts (atry_attempt rt ex llm_or_chain_factory tgs cbs)
                (nat n_repetitions) [] s1 of
           (outputs, s2) \<Rightarrow> (outputs, restore_example_ids previous_example_ids cbs s2))"

text \<open>The state in which attempt number \<open>k\<close> (from 0) of the loop starts.\<close>

definition state_before_attempt ::
  "('w state \<Rightarrow> (exn + pyval) \<times> 'w state) \<Rightarrow> nat \<Rightarrow> 'w state \<Rightarrow> 'w state" where
  "state_before_attempt body k s = snd (repeat_attempts body k [] s)"

section \<open>The repetition loop under an interrupt\<close>

text \<open>
  Exceptions that are not of class \<open>Exception\<close>: \<open>except Exception\<close> does not catch them.
\<close>

datatype base_exception = KeyboardInterrupt | SystemExit | CancelledError





section \<open>The sequential batch runner\<close>

text \<open>
  The collaborators of a batch run: the session of the trace storage is created by the
  client (and may fail), a tracer and an evaluation handler are constructed, and a
  handler is told to wait for its pending work. \<open>str(example.id)\<close> and the clock are
  the runtime's.
\<close>

record 'w collaborators =
  create_session :: "string \<Rightarrow> 'w \<Rightarrow> exn option \<times> 'w"
  new_tracer :: "string \<Rightarrow> handler"
  new_evaluator :: handler
  wait_for_futures :: "handler \<Rightarrow> 'w \<Rightarrow> 'w"
  str_uuid :: "uuid \<Rightarrow> string"
  current_time :: string

definition get_session_name ::
  "'w collaborators \<Rightarrow> string option \<Rightarrow> 'w task \<Rightarrow> string option \<Rightarrow> 'w state
     \<Rightarrow> (exn + string) \<times> 'w state" where
  "get_session_name co session_name llm_or_chain_factory dataset_name s =
     (case session_name of
        Some name \<Rightarrow> (Inr name, s)
      | None \<Rightarrow>
          (case (case llm_or_chain_factory of
                   LanguageModel llm \<Rightarrow> (Inr (lm_class_name llm), s)
                 | ChainFactory factory \<Rightarrow>
                     (case call_factory factory s of
                        (Inl e, s1) \<Rightarrow> (Inl e, s1)
                      | (Inr chain, s1) \<Rightarrow> (Inr (chain_class_name chain), s1))) of
             (Inl e, s1) \<Rightarrow> (Inl e, s1)
           | (Inr model_name, s1) \<Rightarrow>
               (let dataset_prefix =
                      (case dataset_name of
                         None \<Rightarrow> []
                       | Some d \<Rightarrow> if d = [] then [] else d @ ''-'')
                in (Inr (dataset_prefix @ model_name @ ''-'' @ current_time co), s1))))"

definition new_handler :: "handler \<Rightarrow> 'w state \<Rightarrow> addr \<times> 'w state" where
  "new_handler h s =
     (next_addr s, s\<lparr>handlers := (handlers s)(next_addr s := h), next_addr := Suc (next_addr s)\<rparr>)"

definition call_create_session :: "'w collaborators \<Rightarrow> string \<Rightarrow> 'w state \<Rightarrow> exn option \<times> 'w state" where
  "call_create_session co name s =
     (case create_session co name (ext s) of (r, w) \<Rightarrow> (r, s\<lparr>ext := w\<rparr>))"

definition call_wait_for_futures :: "'w collaborators \<Rightarrow> addr \<Rightarrow> 'w state \<Rightarrow> 'w state" where
  "call_wait_for_futures co a s = s\<lparr>ext := wait_for_futures co (handlers s a) (ext s)\<rparr>"

type_synonym results_map = "string \<rightharpoonup> pyval list"

text \<open>\<open>for i, example in enumerate(examples)\<close>, with \<open>results\<close> as it grows.\<close>

fun examples_loop ::
  "runtime \<Rightarrow> 'w collaborators \<Rightarrow> 'w task \<Rightarrow> int \<Rightarrow> tags \<Rightarrow> callbacks
     \<Rightarrow> example list \<Rightarrow> results_map \<Rightarrow> 'w state \<Rightarrow> results_map \<times> 'w state" where
  "examples_loop rt co llm_or_chain_factory num_repetitions tgs cbs [] results s = (results, s)"
| "examples_loop rt co llm_or_chain_factory num_repetitions tgs cbs (ex # rest) results s =
     (case run_llm_or_chain rt ex llm_or_chain_factory num_repetitions tgs cbs s of
        (result, s1) \<Rightarrow>
          examples_loop rt co llm_or_chain_factory num_repetitions tgs cbs rest
            (results(str_uuid co (ex_id ex) \<mapsto> result)) s1)"

definition run_on_examples ::
  "runtime \<Rightarrow> 'w collaborators \<Rightarrow> example list \<Rightarrow> 'w task \<Rightarrow> int \<Rightarrow> string option \<Rightarrow> tags
     \<Rightarrow> 'w state \<Rightarrow> (exn + results_map) \<times> 'w state" where
  "run_on_examples rt co examples llm_or_chain_factory num_repetitions session_name tgs s =
     (case get_session_name co session_name llm_or_chain_factory None s of
        (Inl e, s1) \<Rightarrow> (Inl e, s1)
      | (Inr name, s1) \<Rightarrow>
          (case call_create_session co name s1 of
             (Some e, s2) \<Rightarrow> (Inl e, s2)
           | (None, s2) \<Rightarrow>
               (case new_handler (new_tracer co name) s2 of
                  (tracer, s3) \<Rightarrow>
                    (case new_handler (new_evaluator co) s3 of
                       (evalution_handler, s4) \<Rightarrow>
                         (case examples_loop rt co llm_or_chain_factory num_repetitions tgs
                                 (Some [tracer, evalution_handler]) examples Map.empty s4 of
                            (results, s5) \<Rightarrow>
                              (Inr results,
                               call_wait_for_futures co evalution_handler
                                 (call_wait_for_futures co tracer s5)))))))"


section \<open>Running coroutines under a concurrency limit\<close>

text \<open>
  \<open>_gather_with_concurrency\<close> wraps every \<open>async_func\<close> in a coroutine that enters the
  semaphore, takes a tracer from the queue, runs the function, and on the way out (also
  when the function raised) puts the tracer back and leaves the semaphore. The event
  loop runs one coroutine at a time, up to its next suspension point; which one is not
  fixed. A unit is, in turn: before the semaphore; past it and before the queue; inside
  the function, with its tracer and the local state of the function; done, with the
  result or the exception of the function. The steps below are no coarser than the
  stretches between two suspension points of the source, so every interleaving of the
  source is one of the model.
\<close>

datatype ('l, 'r) unit_state =
    Pending
  | Admitted
  | Running "addr option" 'l
  | Done "exn + 'r"

text \<open>
  An \<open>async_func\<close>: its local state when it is called with a tracer, and its run up to
  the next suspension point, which either goes on with a new local state or returns (or
  raises); it reads and writes \<open>job_state\<close> and the state it shares with the others.
\<close>

record ('l, 'r, 'g) async_func =
  start :: "addr option \<Rightarrow> 'l"
  resume :: "'l \<Rightarrow> nat \<Rightarrow> 'g \<Rightarrow> ('l + (exn + 'r)) \<times> nat \<times> 'g"

record ('l, 'r, 'g) gather =
  semaphore :: nat
  tracer_queue :: "addr option list"
  job_state :: nat
  units :: "('l, 'r) unit_state list"
  first_raised :: "exn option"
  shared :: 'g

text \<open>
  The event loop resumes unit \<open>i\<close>. \<open>None\<close>: the unit cannot move (it waits for the
  semaphore or for the queue, or it is done, or there is no such unit).
\<close>

definition gather_step ::
  "('l, 'r, 'g) async_func list \<Rightarrow> nat \<Rightarrow> ('l, 'r, 'g) gather
     \<Rightarrow> ('l, 'r, 'g) gather option" where
  "gather_step async_funcs i g =
     (if length (units g) \<le> i \<or> length async_funcs \<le> i then None
      else
        (case units g ! i of
           Pending \<Rightarrow>
             if semaphore g = 0 then None
             else Some (g\<lparr>semaphore := semaphore g - 1, units := (units g)[i := Admitted]\<rparr>)
         | Admitted \<Rightarrow>
             (case tracer_queue g of
                [] \<Rightarrow> None
              | tracer # rest \<Rightarrow>
                  Some (g\<lparr>tracer_queue := rest,
                          units := (units g)[i := Running tracer (start (async_funcs ! i) tracer)]\<rparr>))
         | Running tracer l \<Rightarrow>
             (case resume (async_funcs ! i) l (job_state g) (shared g) of
                (Inl l1, job, sh) \<Rightarrow>
                  Some (g\<lparr>job_state := job, units := (units g)[i := Running tracer l1],
                          shared := sh\<rparr>)
              | (Inr r, job, sh) \<Rightarrow>
                  Some (g\<lparr>semaphore := semaphore g + 1,
                          tracer_queue := tracer_queue g @ [tracer],
                          job_state := job,
                          units := (units g)[i := Done r],
                          first_raised :=
                            (case first_raised g of
                               Some e \<Rightarrow> Some e
                             | None \<Rightarrow> (case r of Inl e \<Rightarrow> Some e | Inr v \<Rightarrow> None)),
                          shared := sh\<rparr>))
         | Done r \<Rightarrow> None))"

text \<open>
  A run of the event loop, as the list of the units it resumes in turn; resuming a unit
  that cannot move changes nothing.
\<close>

fun gather_run ::
  "('l, 'r, 'g) async_func list \<Rightarrow> nat list \<Rightarrow> ('l, 'r, 'g) gather
     \<Rightarrow> ('l, 'r, 'g) gather" where
  "gather_run async_funcs [] g = g"
| "gather_run async_funcs (i # schedule) g =
     gather_run async_funcs schedule
       (case gather_step async_funcs i g of None \<Rightarrow> g | Some g1 \<Rightarrow> g1)"

text \<open>\<open>for _ in range(n): tracer_queue.put_nowait(await initializer())\<close>\<close>

fun fill_tracer_queue ::
  "('g \<Rightarrow> (exn + addr option) \<times> 'g) \<Rightarrow> nat \<Rightarrow> addr option list \<Rightarrow> 'g
     \<Rightarrow> (exn + addr option list) \<times> 'g" where
  "fill_tracer_queue initializer 0 queue sh = (Inr queue, sh)"
| "fill_tracer_queue initializer (Suc k) queue sh =
     (case initializer sh of
        (Inl e, sh1) \<Rightarrow> (Inl e, sh1)
      | (Inr tracer, sh1) \<Rightarrow> fill_tracer_queue initializer k (queue @ [tracer]) sh1)"

text \<open>
  The state in which \<open>asyncio.gather\<close> is entered. \<open>asyncio.Semaphore(n)\<close> raises
  \<open>ValueError\<close> when \<open>n\<close> is negative.
\<close>

definition gather_init ::
  "int \<Rightarrow> ('g \<Rightarrow> (exn + addr option) \<times> 'g) \<Rightarrow> ('l, 'r, 'g) async_func list \<Rightarrow> 'g
     \<Rightarrow> (exn \<times> 'g) + ('l, 'r, 'g) gather" where
  "gather_init n initializer async_funcs sh =
     (if n < 0 then Inl (ValueError ''Semaphore initial value must be >= 0'', sh)
      else
        (case fill_tracer_queue initializer (nat n) [] sh of
           (Inl e, sh1) \<Rightarrow> Inl (e, sh1)
         | (Inr queue, sh1) \<Rightarrow>
             Inr \<lparr>semaphore = nat n, tracer_queue = queue, job_state = 0,
                  units = map (\<lambda>f. Pending) async_funcs, first_raised = None,
                  shared = sh1\<rparr>))"

fun is_Running :: "('l, 'r) unit_state \<Rightarrow> bool" where
  "is_Running (Running tracer l) = True"
| "is_Running u = False"

fun is_Done :: "('l, 'r) unit_state \<Rightarrow> bool" where
  "is_Done (Done r) = True"
| "is_Done u = False"

text \<open>The number of units that are inside their function: the invocations in flight.\<close>

definition in_flight :: "('l, 'r, 'g) gather \<Rightarrow> nat" where
  "in_flight g = length (filter is_Running (units g))"

section \<open>The concurrent batch runner\<close>

record 'w arun_shared =
  results :: results_map
  run_state :: "'w state"

text \<open>
  \<open>process_example\<close>, with \<open>_arun_llm_or_chain\<close> inside it, between its suspension
  points: it has been called with its tracer; or it is in the repetition loop, with the
  callbacks, the saved identifiers and the outputs so far.
\<close>

datatype process_local =
    Entered "addr option"
  | Looping callbacks "uuid option list option" "pyval list"

definition process_example ::
  "runtime \<Rightarrow> 'w collaborators \<Rightarrow> 'w task \<Rightarrow> int \<Rightarrow> tags \<Rightarrow> addr \<Rightarrow> example
     \<Rightarrow> (process_local, unit, 'w arun_shared) async_func" where
  "process_example rt co llm_or_chain_factory num_repetitions tgs evaluation_handler ex =
     \<lparr>start = Entered,
      resume = (\<lambda>l job sh.
        case l of
          Entered tracer \<Rightarrow>
            (let cbs = Some ((case tracer of None \<Rightarrow> [] | Some t \<Rightarrow> [t]) @ [evaluation_handler])
             in (Inl (Looping cbs (save_example_ids cbs (run_state sh)) []), job,
                 sh\<lparr>run_state := bind_example_ids ex cbs (run_state sh)\<rparr>))
        | Looping cbs previous_example_ids outputs \<Rightarrow>
            if length outputs < nat num_repetitions then
              (case attempt (atry_attempt rt ex llm_or_chain_factory tgs cbs) (run_state sh) of
                 (out, s1) \<Rightarrow>
                   (Inl (Looping cbs previous_example_ids (outputs @ [out])), job,
                    sh\<lparr>run_state := s1\<rparr>))
            else
              (Inr (Inr ()), Suc job,
               sh\<lparr>results := (results sh)(str_uuid co (ex_id ex) \<mapsto> outputs),
                   run_state := restore_example_ids previous_example_ids cbs (run_state sh)\<rparr>))\<rparr>"

text \<open>\<open>_tracer_initializer\<close>: a tracer when the session name is not empty.\<close>

definition tracer_initializer ::
  "'w collaborators \<Rightarrow> string \<Rightarrow> 'w arun_shared \<Rightarrow> (exn + addr option) \<times> 'w arun_shared" where
  "tracer_initializer co session_name sh =
     (if session_name \<noteq> [] then
        (case new_handler (new_tracer co session_name) (run_state sh) of
           (tracer, s1) \<Rightarrow> (Inr (Some tracer), sh\<lparr>run_state := s1\<rparr>))
      else (Inr None, sh))"

text \<open>
  After \<open>asyncio.gather\<close>: every tracer left in the queue is told to wait for its
  pending work.
\<close>

fun drain_tracer_queue :: "'w collaborators \<Rightarrow> addr option list \<Rightarrow> 'w state \<Rightarrow> 'w state" where
  "drain_tracer_queue co [] s = s"
| "drain_tracer_queue co (None # queue) s = drain_tracer_queue co queue s"
| "drain_tracer_queue co (Some tracer # queue) s =
     drain_tracer_queue co queue (call_wait_for_futures co tracer s)"

text \<open>
  \<open>arun_on_examples\<close> under a run of the event loop. \<open>asyncio.gather\<close> raises the
  first exception a unit raised, and returns when every unit is done. \<open>None\<close>: the run
  given does not take every unit to its end, so \<open>asyncio.gather\<close> has not returned.
\<close>

definition arun_on_examples ::
  "runtime \<Rightarrow> 'w collaborators \<Rightarrow> example list \<Rightarrow> 'w task \<Rightarrow> int \<Rightarrow> int \<Rightarrow> string option
     \<Rightarrow> tags \<Rightarrow> nat list \<Rightarrow> 'w state \<Rightarrow> ((exn + results_map) \<times> 'w state) option" where
  "arun_on_examples rt co examples llm_or_chain_factory concurrency_level num_repetitions
       session_name tgs schedule s =
     (case get_session_name co session_name llm_or_chain_factory None s of
        (Inl e, s1) \<Rightarrow> Some (Inl e, s1)
      | (Inr name, s1) \<Rightarrow>
          (case call_create_session co name s1 of
             (Some e, s2) \<Rightarrow> Some (Inl e, s2)
           | (None, s2) \<Rightarrow>
               (case new_handler (new_evaluator co) s2 of
                  (evaluation_handler, s3) \<Rightarrow>
                    (let async_funcs =
                           map (process_example rt co llm_or_chain_factory num_repetitions tgs
                                  evaluation_handler) examples
                     in case gather_init concurrency_level (tracer_initializer co name)
                               async_funcs \<lparr>results = Map.empty, run_state = s3\<rparr> of
                          Inl (e, sh) \<Rightarrow> Some (Inl e, run_state sh)
                        | Inr g0 \<Rightarrow>
                            (let g = gather_run async_funcs schedule g0
                             in case first_raised g of
                                  Some e \<Rightarrow> Some (Inl e, run_state (shared g))
                                | None \<Rightarrow>
                                    if list_all is_Done (units g) then
                                      Some (Inr (results (shared g)),
                                            call_wait_for_futures co evaluation_handler
                                              (drain_tracer_queue co (tracer_queue g)
                                                 (run_state (shared g))))
                                    else None)))))"


section \<open>A concrete runtime\<close>

text \<open>
  A runtime to run the definitions on. It stands in for the library and for Python's
  printing, and is simpler than they are: a message-dict \<open>{"type": t, "data": {"content": c}}\<close>
  is read with any type \<open>t\<close> and any content, a buffer string has one line
  \<open>type: content\<close> per message, and a record is printed as its keys with the types of
  their values. The general statements below take the runtime as a parameter.
\<close>

definition demo_message_from_dict :: "pyval \<Rightarrow> exn + message" where
  "demo_message_from_dict v =
     (case v of
        PDict d \<Rightarrow>
          (case (map_of d ''type'', map_of d ''data'') of
             (Some (PStr t), Some (PDict dd)) \<Rightarrow>
               (case map_of dd ''content'' of
                  Some c \<Rightarrow> Inr (Message t c)
                | None \<Rightarrow> Inl (OtherException ''KeyError'' ''content''))
           | _ \<Rightarrow> Inl (OtherException ''KeyError'' ''type''))
      | _ \<Rightarrow> Inl (OtherException ''TypeError'' ''message is not a dict''))"

fun demo_line :: "message \<Rightarrow> exn + string" where
  "demo_line (Message r (PStr c)) = Inr (r @ '': '' @ c)"
| "demo_line (Message r _) = Inl (ValueError ''Got unsupported message content'')"

fun join_lines :: "string list \<Rightarrow> string" where
  "join_lines [] = []"
| "join_lines [l] = l"
| "join_lines (l # ls) = l @ [CHR 0x0A] @ join_lines ls"

definition demo_get_buffer_string :: "message list \<Rightarrow> exn + string" where
  "demo_get_buffer_string ms =
     (case map_raise demo_line ms of Inl e \<Rightarrow> Inl e | Inr ls \<Rightarrow> Inr (join_lines ls))"

definition demo_repr_inputs :: "inputs \<Rightarrow> string" where
  "demo_repr_inputs inputs =
     ''{'' @ concat (map (\<lambda>(k, v). k @ '': '' @ type_name v @ '', '') inputs) @ ''}''"

definition demo_runtime :: runtime where
  "demo_runtime =
     \<lparr>repr_inputs = demo_repr_inputs,
      message_from_dict = demo_message_from_dict,
      get_buffer_string = demo_get_buffer_string\<rparr>"

definition human_dict :: "string \<Rightarrow> pyval" where
  "human_dict c = PDict [(''type'', PStr ''human''), (''data'', PDict [(''content'', PStr c)])]"

text \<open>
  A task to run: a model whose batch-generate operation returns a result that counts the
  calls made so far (the collaborators' state is that count), and fails where told to.
\<close>

definition demo_generate :: "(gen_arg, nat) operation" where
  "demo_generate arg cbs tgs w = (Inr (PObj ''LLMResult'' [(''call'', PInt (int w))]), Suc w)"

definition demo_llm :: "lm_kind \<Rightarrow> nat language_model" where
  "demo_llm kind =
     \<lparr>lm_kind = kind, lm_class_name = ''FakeLLM'', lm_type = ''<class 'FakeLLM'>'',
      generate = demo_generate, agenerate = demo_generate\<rparr>"

text \<open>A chain that fails on its call number \<open>bad\<close> and echoes the call number otherwise.\<close>

definition demo_chain_call :: "nat \<Rightarrow> (inputs, nat) operation" where
  "demo_chain_call bad inp cbs tgs w =
     (if w = bad then (Inl (OtherException ''RuntimeError'' ''boom''), Suc w)
      else (Inr (PDict [(''output'', PInt (int w))]), Suc w))"

definition demo_chain_factory :: "nat \<Rightarrow> nat \<Rightarrow> (exn + nat chain) \<times> nat" where
  "demo_chain_factory bad w =
     (Inr \<lparr>chain_class_name = ''FakeChain'', call_chain = demo_chain_call bad,
           acall = demo_chain_call bad\<rparr>, w)"

definition no_handler :: handler where
  "no_handler = \<lparr>handler_class = ''object'', example_id = None\<rparr>"

definition demo_state :: "nat state" where
  "demo_state = \<lparr>handlers = (\<lambda>a. no_handler), next_addr = 0, calls = [], ext = 0\<rparr>"

definition demo_collaborators :: "nat collaborators" where
  "demo_collaborators =
     \<lparr>create_session = (\<lambda>name w. (None, w)),
      new_tracer = (\<lambda>name. \<lparr>handler_class = ''LangChainTracer'', example_id = Some None\<rparr>),
      new_evaluator = \<lparr>handler_class = ''EvaluatorCallbackHandler'', example_id = Some None\<rparr>,
      wait_for_futures = (\<lambda>h w. w),
      str_uuid = (\<lambda>u. case u of UUID n \<Rightarrow> replicate n CHR ''1''),
      current_time = ''2023-06-01-12-00-00''\<rparr>"

definition demo_example :: "nat \<Rightarrow> example" where
  "demo_example i = \<lparr>ex_id = UUID i, ex_inputs = [(''question'', PStr ''hi'')]\<rparr>"

text \<open>
  A state with three handlers: a tracer bound to an identifier, a handler without the
  attribute, and a tracer bound to nothing.
\<close>

definition demo_handlers :: store where
  "demo_handlers =
     (\<lambda>a. no_handler)
       (0 := \<lparr>handler_class = ''LangChainTracer'', example_id = Some (Some (UUID 9))\<rparr>,
        1 := \<lparr>handler_class = ''StdOutCallbackHandler'', example_id = None\<rparr>,
        2 := \<lparr>handler_class = ''LangChainTracer'', example_id = Some None\<rparr>)"

definition demo_state2 :: "nat state" where
  "demo_state2 = \<lparr>handlers = demo_handlers, next_addr = 3, calls = [], ext = 0\<rparr>"

text \<open>The same state after another unit has bound the first tracer to its own example.\<close>

definition demo_state3 :: "nat state" where
  "demo_state3 =
     demo_state2\<lparr>handlers :=
       (handlers demo_state2)
         (0 := \<lparr>handler_class = ''LangChainTracer'', example_id = Some (Some (UUID 5))\<rparr>)\<rparr>"

section \<open>Invariants and schedules\<close>

text \<open>A unit holds a permit of the semaphore from its admission to its end.\<close>

fun holds_permit :: "('l, 'r) unit_state \<Rightarrow> bool" where
  "holds_permit Admitted = True"
| "holds_permit (Running tracer l) = True"
| "holds_permit u = False"

text \<open>
  With \<open>N\<close> the concurrency level: the free permits and the units holding one are \<open>N\<close>
  together, and so are the tracers in the queue and the units running with one.
\<close>

definition gather_inv :: "nat \<Rightarrow> ('l, 'r, 'g) gather \<Rightarrow> bool" where
  "gather_inv N g \<longleftrightarrow>
     semaphore g + length (filter holds_permit (units g)) = N
   \<and> length (tracer_queue g) + length (filter is_Running (units g)) = N"

text \<open>A function that suspends twice and returns, and its gather of two units.\<close>

definition demo_async_func :: "(nat, nat, unit) async_func" where
  "demo_async_func =
     \<lparr>start = (\<lambda>tracer. 0),
      resume = (\<lambda>l job sh. if l < 2 then (Inl (Suc l), job, sh) else (Inr (Inr l), Suc job, sh))\<rparr>"

text \<open>
  In a concurrent batch run no unit has raised, and the results map holds the keys of the
  examples whose units are done.
\<close>

definition arun_inv ::
  "'w collaborators \<Rightarrow> example list \<Rightarrow> (process_local, unit, 'w arun_shared) gather \<Rightarrow> bool" where
  "arun_inv co examples g \<longleftrightarrow>
     first_raised g = None
   \<and> length (units g) = length examples
   \<and> dom (results (shared g)) =
       (\<lambda>i. str_uuid co (ex_id (examples ! i))) ` {i. i < length examples \<and> is_Done (units g ! i)}"

text \<open>
  The run of the event loop that takes the units one after the other, each to its end:
  a unit of \<open>m\<close> repetitions is resumed \<open>m + 4\<close> times.
\<close>

definition one_by_one :: "nat \<Rightarrow> nat \<Rightarrow> nat list" where
  "one_by_one m k = concat (map (\<lambda>i. replicate (m + 4) i) [0..<k])"

definition demo_initializer :: "unit \<Rightarrow> (exn + addr option) \<times> unit" where
  "demo_initializer sh = (Inr None, sh)"

definition demo_gather :: "(nat, nat, unit) gather" where
  "demo_gather =
     \<lparr>semaphore = 1, tracer_queue = [None], job_state = 0, units = [Pending, Pending],
      first_raised = None, shared = ()\<rparr>"


text \<open>
  With a property \<open>P\<close> of the outputs of the attempts of each example: a unit in its loop
  has made at most \<open>n\<close> attempts, a recorded entry has \<open>n\<close> outputs, and all these outputs
  have the property.
\<close>

definition arun_entries_inv ::
  "(nat \<Rightarrow> pyval \<Rightarrow> bool) \<Rightarrow> int \<Rightarrow> 'w collaborators \<Rightarrow> example list
     \<Rightarrow> (process_local, unit, 'w arun_shared) gather \<Rightarrow> bool" where
  "arun_entries_inv P n co examples g \<longleftrightarrow>
     (\<forall>i t cbs prev outs.
        i < length (units g) \<and> units g ! i = Running t (Looping cbs prev outs) \<longrightarrow>
        length outs \<le> nat n \<and> (\<forall>out \<in> set outs. P i out))
   \<and> (\<forall>key outs.
        results (shared g) key = Some outs \<longrightarrow>
        length outs = nat n
        \<and> (\<exists>i < length examples.
              key = str_uuid co (ex_id (examples ! i)) \<and> (\<forall>out \<in> set outs. P i out)))"






section \<open>The input adapters: properties\<close>

text \<open>
  Claim C5. \<open>_get_prompts\<close> on every input record: an empty record raises
  \<open>InputFormatError\<close>; under the key \<open>"prompt"\<close> a string is returned as a list of one
  element, and anything else raises; with no key \<open>"prompt"\<close>, under the key \<open>"prompts"\<close> a
  list of strings is returned as it is, and anything else raises; with neither key, a
  record of exactly one field gives \<open>[value]\<close> for a string and the value for a list of
  strings, and raises for anything else; every other record raises
  \<open>InputFormatError\<close>.
\<close>

theorem get_prompts_cases:
  "(inputs = [] \<longrightarrow>
      get_prompts rt inputs = Inl (InputFormatError ''Inputs should not be empty.''))
 \<and> (map_of inputs ''prompt'' = Some (PStr p) \<longrightarrow> get_prompts rt inputs = Inr [PStr p])
 \<and> (map_of inputs ''prompt'' = Some v \<and> \<not> is_str v \<longrightarrow>
      get_prompts rt inputs =
        Inl (InputFormatError (''Expected string for 'prompt', got '' @ type_name v)))
 \<and> (map_of inputs ''prompt'' = None \<and> map_of inputs ''prompts'' = Some (PList ps)
      \<and> list_all is_str ps \<longrightarrow> get_prompts rt inputs = Inr ps)
 \<and> (map_of inputs ''prompt'' = None \<and> map_of inputs ''prompts'' = Some v
      \<and> \<not> (is_list v \<and> list_all is_str (the_list v)) \<longrightarrow>
      get_prompts rt inputs =
        Inl (InputFormatError
              (''Expected list of strings for 'prompts', got '' @ type_name v)))
 \<and> (map_of inputs ''prompt'' = None \<and> map_of inputs ''prompts'' = None
      \<and> inputs = [(k, PStr p)] \<longrightarrow> get_prompts rt inputs = Inr [PStr p])
 \<and> (map_of inputs ''prompt'' = None \<and> map_of inputs ''prompts'' = None
      \<and> inputs = [(k, PList ps)] \<and> list_all is_str ps \<longrightarrow> get_prompts rt inputs = Inr ps)
 \<and> (map_of inputs ''prompt'' = None \<and> map_of inputs ''prompts'' = None
      \<and> inputs = [(k, v)] \<and> \<not> is_str v \<and> \<not> (is_list v \<and> list_all is_str (the_list v)) \<longrightarrow>
      get_prompts rt inputs =
        Inl (InputFormatError
              (''LLM Run expects string prompt input. Got '' @ repr_inputs rt inputs)))
 \<and> (inputs \<noteq> [] \<and> map_of inputs ''prompt'' = None \<and> map_of inputs ''prompts'' = None
      \<and> length inputs \<noteq> 1 \<longrightarrow>
      get_prompts rt inputs =
        Inl (InputFormatError
              (''LLM Run expects 'prompt' or 'prompts' in inputs. Got ''
               @ repr_inputs rt inputs)))"
  by (auto simp: get_prompts_def has_key_def item_def first_value_def)

theorem get_prompts_cases_witness:
  "get_prompts demo_runtime [(''prompt'', PStr ''hi'')] = Inr [PStr ''hi'']
 \<and> get_prompts demo_runtime [(''prompts'', PList [PStr ''a'', PStr ''b''])]
      = Inr [PStr ''a'', PStr ''b'']
 \<and> get_prompts demo_runtime [] = Inl (InputFormatError ''Inputs should not be empty.'')
 \<and> get_prompts demo_runtime [(''x'', PInt 5)] =
      Inl (InputFormatError ''LLM Run expects string prompt input. Got {x: int, }'')
 \<and> get_prompts demo_runtime [(''x'', PStr ''hi'')] = Inr [PStr ''hi'']
 \<and> get_prompts demo_runtime [(''prompt'', PInt 5), (''prompts'', PList [PStr ''a''])] =
      Inl (InputFormatError ''Expected string for 'prompt', got int'')"
  using get_prompts_cases [of "[(''prompt'', PStr ''hi'')]" demo_runtime "''hi''"]
        get_prompts_cases [of "[(''prompts'', PList [PStr ''a'', PStr ''b''])]" demo_runtime
                              _ _ "[PStr ''a'', PStr ''b'']"]
        get_prompts_cases [of "[]" demo_runtime]
        get_prompts_cases [of "[(''x'', PInt 5)]" demo_runtime _ "PInt 5" _ "''x''"]
        get_prompts_cases [of "[(''x'', PStr ''hi'')]" demo_runtime "''hi''" _ _ "''x''"]
        get_prompts_cases [of "[(''prompt'', PInt 5), (''prompts'', PList [PStr ''a''])]"
                              demo_runtime _ "PInt 5"]
  by (simp add: demo_runtime_def demo_repr_inputs_def)

text \<open>
  Claim C6. \<open>_get_messages\<close> on every input record: an empty record raises
  \<open>InputFormatError\<close>; the source value is the field \<open>"messages"\<close> if there is one, else
  the value of the only field of a record of one field, else \<open>InputFormatError\<close> is
  raised; a source that is a list of dicts gives one batch, a list holding the
  deserialised source; a source that is a list of lists is deserialised batch by batch;
  any other source raises \<open>InputFormatError\<close>; and \<open>{"a": 1, "b": 2}\<close> raises
  \<open>InputFormatError\<close>.
\<close>

theorem get_messages_cases:
  "(inputs = [] \<longrightarrow>
      get_messages rt inputs = Inl (InputFormatError ''Inputs should not be empty.''))
 \<and> (inputs \<noteq> [] \<and> map_of inputs ''messages'' = None \<and> length inputs \<noteq> 1 \<longrightarrow>
      get_messages rt inputs =
        Inl (InputFormatError
              (''Chat Run expects 'messages' in inputs. Got '' @ repr_inputs rt inputs)))
 \<and> (map_of inputs ''messages'' = Some src
        \<or> map_of inputs ''messages'' = None \<and> inputs = [(k, src)] \<longrightarrow>
      get_messages rt inputs =
        (if is_list src \<and> list_all is_dict (the_list src) then
           (case messages_from_dict rt (the_list src) of
              Inl e \<Rightarrow> Inl e
            | Inr batch \<Rightarrow> Inr [batch])
         else if is_list src \<and> list_all is_list (the_list src) then
           map_raise (\<lambda>batch. messages_from_dict rt (the_list batch)) (the_list src)
         else
           Inl (InputFormatError
                 (''Chat Run expects List[dict] or List[List[dict]] 'messages' input. Got ''
                  @ repr_inputs rt inputs))))
 \<and> get_messages rt [(''a'', PInt 1), (''b'', PInt 2)] =
      Inl (InputFormatError
            (''Chat Run expects 'messages' in inputs. Got ''
             @ repr_inputs rt [(''a'', PInt 1), (''b'', PInt 2)]))"
  by (auto simp: get_messages_def has_key_def item_def first_value_def split: sum.splits)

theorem get_messages_cases_witness:
  "get_messages demo_runtime [] = Inl (InputFormatError ''Inputs should not be empty.'')
 \<and> get_messages demo_runtime [(''messages'', PList [human_dict ''hi''])]
      = Inr [[Message ''human'' (PStr ''hi'')]]
 \<and> get_messages demo_runtime [(''x'', PList [PList [human_dict ''a''], PList []])]
      = Inr [[Message ''human'' (PStr ''a'')], []]
 \<and> get_messages demo_runtime [(''x'', PStr ''hi'')] =
      Inl (InputFormatError
            ''Chat Run expects List[dict] or List[List[dict]] 'messages' input. Got {x: str, }'')
 \<and> get_messages demo_runtime [(''a'', PInt 1), (''b'', PInt 2)] =
      Inl (InputFormatError ''Chat Run expects 'messages' in inputs. Got {a: int, b: int, }'')"
  using get_messages_cases [of "[]" demo_runtime]
        get_messages_cases [of "[(''messages'', PList [human_dict ''hi''])]" demo_runtime
                               "PList [human_dict ''hi'']"]
        get_messages_cases [of "[(''x'', PList [PList [human_dict ''a''], PList []])]"
                               demo_runtime "PList [PList [human_dict ''a''], PList []]" "''x''"]
        get_messages_cases [of "[(''x'', PStr ''hi'')]" demo_runtime "PStr ''hi''" "''x''"]
        get_messages_cases [of "[(''a'', PInt 1), (''b'', PInt 2)]" demo_runtime]
  by (simp add: messages_from_dict_def demo_runtime_def demo_message_from_dict_def human_dict_def
        demo_repr_inputs_def)

text \<open>
  Claim C10, as stated, fails: a record of one field whose value is \<open>[]\<close> is not always
  accepted by \<open>_get_prompts\<close>. Under the key \<open>"prompt"\<close> the value must be a string, and
  \<open>{"prompt": []}\<close> raises \<open>InputFormatError\<close>.
\<close>

theorem get_prompts_empty_list_counterexample:
  "get_prompts demo_runtime [(''prompt'', PList [])] =
     Inl (InputFormatError ''Expected string for 'prompt', got list'')"
  by (simp add: get_prompts_def has_key_def item_def)

text \<open>
  Claim C10, amended. \<open>_get_prompts\<close> on a record of one field whose key is not
  \<open>"prompt"\<close> and whose value is \<open>[]\<close> returns the empty list of prompts; \<open>_get_messages\<close>
  on a record whose field \<open>"messages"\<close> is \<open>[]\<close>, as \<open>{"messages": []}\<close>, takes \<open>[]\<close> for a
  list of message-dicts and returns \<open>[[]]\<close>, one empty message sequence.
\<close>

theorem empty_list_accepted:
  "(k \<noteq> ''prompt'' \<longrightarrow> get_prompts rt [(k, PList [])] = Inr [])
 \<and> (map_of inputs ''messages'' = Some (PList []) \<longrightarrow> get_messages rt inputs = Inr [[]])
 \<and> get_messages rt [(''messages'', PList [])] = Inr [[]]"
  by (auto simp: get_prompts_def get_messages_def has_key_def item_def first_value_def
        messages_from_dict_def)

theorem empty_list_accepted_witness:
  "''x'' \<noteq> ''prompt'' \<and> get_prompts demo_runtime [(''x'', PList [])] = Inr []
 \<and> map_of [(''id'', PInt 7), (''messages'', PList [])] ''messages'' = Some (PList [])
 \<and> get_messages demo_runtime [(''id'', PInt 7), (''messages'', PList [])] = Inr [[]]"
  using empty_list_accepted [of "''x''" demo_runtime "[(''id'', PInt 7), (''messages'', PList [])]"]
  by simp


section \<open>The invoker: properties\<close>

text \<open>
  Claim C7 says that every branch of \<open>run_llm\<close> and \<open>_arun_llm\<close>, the fallbacks too,
  calls the batch-generate operation with the configured tags. On a text-completion
  model and the record \<open>{"messages": [<human: hi>]}\<close>, with the tags \<open>["t"]\<close>, the
  prompts are not resolved and the messages are flattened; \<open>_arun_llm\<close> then passes the
  tags, and \<open>run_llm\<close> calls \<open>generate\<close> without them.
\<close>

theorem run_llm_fallback_drops_tags:
  "calls (snd (run_llm demo_runtime (demo_llm BaseLLM) [(''messages'', PList [human_dict ''hi''])]
                 None (Some [''t'']) demo_state))
     = [Generate (Prompts [PStr ''human: hi'']) None None]
 \<and> calls (snd (arun_llm demo_runtime (demo_llm BaseLLM) [(''messages'', PList [human_dict ''hi''])]
                 (Some [''t'']) None demo_state))
     = [Generate (Prompts [PStr ''human: hi'']) None (Some [''t''])]"
  by (simp add: run_llm_def arun_llm_def demo_llm_def get_prompts_def get_messages_def has_key_def
        item_def first_value_def human_dict_def messages_from_dict_def demo_runtime_def
        demo_message_from_dict_def demo_get_buffer_string_def call_generate_def demo_generate_def
        demo_state_def)


section \<open>The repetition loop: properties\<close>

lemma repeat_attempts_add:
  "repeat_attempts body (n + m) outs s =
     (case repeat_attempts body n outs s of (o1, s1) \<Rightarrow> repeat_attempts body m o1 s1)"
  by (induction n arbitrary: outs s) (auto split: prod.splits)

lemma repeat_attempts_append:
  "fst (repeat_attempts body n outs s) = outs @ fst (repeat_attempts body n [] s)"
proof (induction n arbitrary: outs s)
  case 0
  then show ?case by simp
next
  case (Suc n)
  obtain out s1 where a: "attempt body s = (out, s1)" by (cases "attempt body s")
  have "fst (repeat_attempts body (Suc n) outs s) = (outs @ [out]) @ fst (repeat_attempts body n [] s1)"
    using a Suc.IH [of "outs @ [out]" s1] by simp
  moreover have "fst (repeat_attempts body (Suc n) [] s) = [out] @ fst (repeat_attempts body n [] s1)"
    using a Suc.IH [of "[out]" s1] by simp
  ultimately show ?case by simp
qed

lemma repeat_attempts_snd:
  "snd (repeat_attempts body n outs s) = snd (repeat_attempts body n outs' s)"
  by (induction n arbitrary: outs outs' s) (auto split: prod.splits)

lemma repeat_attempts_length:
  "length (fst (repeat_attempts body n outs s)) = length outs + n"
  by (induction n arbitrary: outs s) (auto split: prod.splits)

lemma repeat_attempts_Suc:
  "repeat_attempts body (Suc n) [] s =
     (fst (repeat_attempts body n [] s)
        @ [fst (attempt body (snd (repeat_attempts body n [] s)))],
      snd (attempt body (snd (repeat_attempts body n [] s))))"
proof -
  obtain o1 s1 where r: "repeat_attempts body n [] s = (o1, s1)"
    by (cases "repeat_attempts body n [] s")
  obtain out s2 where a: "attempt body s1 = (out, s2)" by (cases "attempt body s1")
  have "repeat_attempts body (n + 1) [] s = repeat_attempts body 1 o1 s1"
    using repeat_attempts_add [of body n 1 "[]" s] r by simp
  then show ?thesis using r a by simp
qed

lemma repeat_attempts_nth:
  "k < n \<Longrightarrow>
     fst (repeat_attempts body n [] s) ! k = fst (attempt body (snd (repeat_attempts body k [] s)))"
proof (induction n)
  case 0
  then show ?case by simp
next
  case (Suc n)
  show ?case
  proof (cases "k = n")
    case True
    then show ?thesis
      by (simp add: repeat_attempts_Suc repeat_attempts_length nth_append del: repeat_attempts.simps)
  next
    case False
    with Suc have "k < n" by simp
    then show ?thesis using Suc.IH
      by (simp add: repeat_attempts_Suc repeat_attempts_length nth_append del: repeat_attempts.simps)
  qed
qed

lemma call_generate_handlers: "handlers (snd (call_generate gen arg cbs tgs s)) = handlers s"
  by (simp add: call_generate_def split: prod.splits)

lemma call_invoke_handlers: "handlers (snd (call_invoke f inp cbs tgs s)) = handlers s"
  by (simp add: call_invoke_def split: prod.splits)

lemma call_factory_handlers: "handlers (snd (call_factory factory s)) = handlers s"
  by (simp add: call_factory_def split: prod.splits)

lemma run_llm_handlers: "handlers (snd (run_llm rt llm inps cbs tgs s)) = handlers s"
  unfolding run_llm_def
  by (auto split: lm_kind.splits sum.splits prod.splits dest: arg_cong [where f = "\<lambda>p. handlers (snd p)"]
        simp: call_generate_handlers)


lemma arun_llm_handlers: "handlers (snd (arun_llm rt llm inps tgs cbs s)) = handlers s"
  unfolding arun_llm_def
  by (auto split: lm_kind.splits sum.splits prod.splits dest: arg_cong [where f = "\<lambda>p. handlers (snd p)"]
        simp: call_generate_handlers)

lemma try_attempt_handlers:
  "handlers (snd (try_attempt rt ex task tgs cbs s)) = handlers s"
  unfolding try_attempt_def
  by (auto split: task.splits sum.splits prod.splits
        dest: arg_cong [where f = "\<lambda>p. handlers (snd p)"]
        simp: run_llm_handlers call_invoke_handlers call_factory_handlers)

lemma atry_attempt_handlers:
  "handlers (snd (atry_attempt rt ex task tgs cbs s)) = handlers s"
  unfolding atry_attempt_def
  by (auto split: task.splits sum.splits prod.splits
        dest: arg_cong [where f = "\<lambda>p. handlers (snd p)"]
        simp: arun_llm_handlers call_invoke_handlers call_factory_handlers)

lemma attempt_handlers:
  assumes "\<And>s. handlers (snd (body s)) = handlers s"
  shows "handlers (snd (attempt body s)) = handlers s"
  using assms [of s] by (auto simp: attempt_def split: prod.splits sum.splits)

lemma repeat_attempts_handlers:
  assumes "\<And>s. handlers (snd (body s)) = handlers s"
  shows "handlers (snd (repeat_attempts body n outs s)) = handlers s"
proof (induction n arbitrary: outs s)
  case 0
  then show ?case by simp
next
  case (Suc n)
  obtain out s1 where a: "attempt body s = (out, s1)" by (cases "attempt body s")
  have "handlers s1 = handlers s" using attempt_handlers [of body s, OF assms] a by simp
  then show ?case using a Suc.IH [of "outs @ [out]" s1] by simp
qed

lemma fold_set_example_id:
  "fold (set_example_id v) l hs a =
     (if a \<in> set l \<and> hasattr_example_id (hs a) then (hs a)\<lparr>example_id := Some v\<rparr> else hs a)"
  by (induction l arbitrary: hs) (auto simp: set_example_id_def hasattr_example_id_def)

lemma restore_fold:
  assumes "\<And>a. hs1 a = hs0 a
              \<or> (a \<in> set l \<and> hasattr_example_id (hs0 a) \<and> (\<exists>v. hs1 a = (hs0 a)\<lparr>example_id := Some v\<rparr>))"
  shows "fold (\<lambda>(example_id, tracer). set_example_id example_id tracer)
           (zip (map (\<lambda>tracer. getattr_example_id (hs0 tracer)) l) l) hs1 = hs0"
  using assms
proof (induction l arbitrary: hs1)
  case Nil
  then show ?case by auto
next
  case (Cons x xs)
  let ?hs2 = "set_example_id (getattr_example_id (hs0 x)) x hs1"
  have x: "?hs2 x = hs0 x"
    using Cons.prems [of x]
    by (auto simp: set_example_id_def hasattr_example_id_def getattr_example_id_def)
  have "\<And>a. ?hs2 a = hs0 a
          \<or> (a \<in> set xs \<and> hasattr_example_id (hs0 a) \<and> (\<exists>v. ?hs2 a = (hs0 a)\<lparr>example_id := Some v\<rparr>))"
  proof -
    fix a
    show "?hs2 a = hs0 a
          \<or> (a \<in> set xs \<and> hasattr_example_id (hs0 a) \<and> (\<exists>v. ?hs2 a = (hs0 a)\<lparr>example_id := Some v\<rparr>))"
    proof (cases "a = x")
      case True
      then show ?thesis using x by simp
    next
      case False
      then have "?hs2 a = hs1 a" by (simp add: set_example_id_def)
      then show ?thesis using Cons.prems [of a] False by auto
    qed
  qed
  from Cons.IH [of ?hs2, OF this] show ?case by simp
qed

lemma restore_after_bind:
  assumes "handlers s2 = handlers (bind_example_ids ex cbs s)"
  shows "handlers (restore_example_ids (save_example_ids cbs s) cbs s2) = handlers s"
proof (cases "truthy cbs")
  case False
  then show ?thesis using assms
    by (auto simp: restore_example_ids_def bind_example_ids_def truthy_def split: option.splits)
next
  case True
  then obtain l where l: "cbs = Some l" "l \<noteq> []"
    by (auto simp: truthy_def split: option.splits)
  have h2: "handlers s2 = fold (set_example_id (Some (ex_id ex))) l (handlers s)"
    using assms l by (simp add: bind_example_ids_def)
  have "fold (\<lambda>(example_id, tracer). set_example_id example_id tracer)
           (zip (map (\<lambda>tracer. getattr_example_id (handlers s tracer)) l) l) (handlers s2)
        = handlers s"
    by (rule restore_fold) (auto simp: h2 fold_set_example_id)
  then show ?thesis using l
    by (simp add: restore_example_ids_def save_example_ids_def truthy_def)
qed

lemma run_llm_or_chain_handlers:
  "handlers (snd (run_llm_or_chain rt ex task n tgs cbs s)) = handlers s"
proof -
  obtain outs s2 where
    r: "repeat_attempts (try_attempt rt ex task tgs cbs) (nat n) [] (bind_example_ids ex cbs s) = (outs, s2)"
    by (cases "repeat_attempts (try_attempt rt ex task tgs cbs) (nat n) [] (bind_example_ids ex cbs s)")
  have "handlers s2 = handlers (bind_example_ids ex cbs s)"
    using repeat_attempts_handlers [of "try_attempt rt ex task tgs cbs" "nat n" "[]"
        "bind_example_ids ex cbs s", OF try_attempt_handlers] r by simp
  then show ?thesis using r by (simp add: run_llm_or_chain_def restore_after_bind)
qed


lemma run_llm_or_chain_fst:
  "fst (run_llm_or_chain rt ex task n tgs cbs s) =
     fst (repeat_attempts (try_attempt rt ex task tgs cbs) (nat n) [] (bind_example_ids ex cbs s))"
  by (simp add: run_llm_or_chain_def split: prod.splits)

lemma arun_llm_or_chain_fst:
  "fst (arun_llm_or_chain rt ex task n tgs cbs s) =
     fst (repeat_attempts (atry_attempt rt ex task tgs cbs) (nat n) [] (bind_example_ids ex cbs s))"
  by (simp add: arun_llm_or_chain_def split: prod.splits)

lemma attempt_fst:
  "fst (attempt body s) =
     (case fst (body s) of
        Inr output \<Rightarrow> output
      | Inl e \<Rightarrow> PDict [(''Error'', PStr (str_exn e))])"
  by (simp add: attempt_def error_record_def split: prod.splits sum.splits)


text \<open>
  Claim C2. For every example and every repetition count \<open>n_repetitions \<ge> 0\<close>, the loop
  of \<open>run_llm_or_chain\<close> and of \<open>_arun_llm_or_chain\<close> returns a list of exactly
  \<open>n_repetitions\<close> entries, one per attempt and in the order of the attempts: entry \<open>k\<close>
  is the output of attempt \<open>k\<close>, or the error record of the exception it raised.
\<close>

theorem repetition_loop_entries:
  assumes "0 \<le> n"
  shows "int (length (fst (run_llm_or_chain rt ex task n tgs cbs s))) = n
   \<and> (\<forall>k < nat n.
         fst (run_llm_or_chain rt ex task n tgs cbs s) ! k =
           (case fst (try_attempt rt ex task tgs cbs
                        (state_before_attempt (try_attempt rt ex task tgs cbs) k
                           (bind_example_ids ex cbs s))) of
              Inr output \<Rightarrow> output
            | Inl e \<Rightarrow> PDict [(''Error'', PStr (str_exn e))]))
   \<and> int (length (fst (arun_llm_or_chain rt ex task n tgs cbs s))) = n
   \<and> (\<forall>k < nat n.
         fst (arun_llm_or_chain rt ex task n tgs cbs s) ! k =
           (case fst (atry_attempt rt ex task tgs cbs
                        (state_before_attempt (atry_attempt rt ex task tgs cbs) k
                           (bind_example_ids ex cbs s))) of
              Inr output \<Rightarrow> output
            | Inl e \<Rightarrow> PDict [(''Error'', PStr (str_exn e))]))"
  using assms
  by (simp add: run_llm_or_chain_fst arun_llm_or_chain_fst repeat_attempts_length
        repeat_attempts_nth attempt_fst state_before_attempt_def)


theorem repetition_loop_entries_witness:
  "(0::int) \<le> 3
 \<and> int (length (fst (run_llm_or_chain demo_runtime (demo_example 1)
                       (ChainFactory (demo_chain_factory 1)) 3 None None demo_state))) = 3
 \<and> fst (run_llm_or_chain demo_runtime (demo_example 1)
           (ChainFactory (demo_chain_factory 1)) 3 None None demo_state) ! 1
      = PDict [(''Error'', PStr ''boom'')]
 \<and> fst (arun_llm_or_chain demo_runtime (demo_example 1)
           (ChainFactory (demo_chain_factory 1)) 3 None None demo_state) ! 2
      = PDict [(''output'', PInt 2)]"
proof -
  have n: "(0::int) \<le> 3" by simp
  have k1: "(1::nat) < nat 3" and k2: "(2::nat) < nat 3" by simp_all
  note th = repetition_loop_entries [OF n, of demo_runtime "demo_example 1"
      "ChainFactory (demo_chain_factory 1)" None None demo_state]
  have a: "fst (try_attempt demo_runtime (demo_example 1) (ChainFactory (demo_chain_factory 1)) None None
         (state_before_attempt (try_attempt demo_runtime (demo_example 1) (ChainFactory (demo_chain_factory 1)) None None) 1
            (bind_example_ids (demo_example 1) None demo_state)))
        = Inl (OtherException ''RuntimeError'' ''boom'')"
    by (simp add: state_before_attempt_def try_attempt_def call_factory_def call_invoke_def
          demo_chain_factory_def demo_chain_call_def demo_state_def bind_example_ids_def
          attempt_def numeral_nat)
  have b: "fst (atry_attempt demo_runtime (demo_example 1) (ChainFactory (demo_chain_factory 1)) None None
         (state_before_attempt (atry_attempt demo_runtime (demo_example 1) (ChainFactory (demo_chain_factory 1)) None None) 2
            (bind_example_ids (demo_example 1) None demo_state)))
        = Inr (PDict [(''output'', PInt 2)])"
    by (simp add: state_before_attempt_def atry_attempt_def call_factory_def call_invoke_def
          demo_chain_factory_def demo_chain_call_def demo_state_def bind_example_ids_def
          attempt_def numeral_nat)
  show ?thesis
    using th k1 k2 a b by simp
qed



section \<open>The sequential batch runner: properties\<close>

lemma examples_loop_dom:
  "dom (fst (examples_loop rt co task n tgs cbs examples res s)) =
     dom res \<union> (\<lambda>x. str_uuid co (ex_id x)) ` set examples"
  by (induction examples arbitrary: res s) (auto split: prod.splits)

lemma examples_loop_other:
  "key \<notin> (\<lambda>x. str_uuid co (ex_id x)) ` set examples \<Longrightarrow>
     fst (examples_loop rt co task n tgs cbs examples res s) key = res key"
  by (induction examples arbitrary: res s) (auto split: prod.splits)

lemma examples_loop_entries:
  assumes "\<And>x s. Q x (fst (run_llm_or_chain rt x task n tgs cbs s))"
      and "x \<in> set examples"
  shows "\<exists>outs y. fst (examples_loop rt co task n tgs cbs examples res s) (str_uuid co (ex_id x))
                    = Some outs
               \<and> y \<in> set examples \<and> str_uuid co (ex_id y) = str_uuid co (ex_id x) \<and> Q y outs"
  using assms(2)
proof (induction examples arbitrary: x res s)
  case Nil
  then show ?case by simp
next
  case (Cons e rest)
  obtain result s1 where r: "run_llm_or_chain rt e task n tgs cbs s = (result, s1)"
    by (cases "run_llm_or_chain rt e task n tgs cbs s")
  have q: "Q e result" using assms(1) [of e s] r by simp
  let ?res1 = "res(str_uuid co (ex_id e) \<mapsto> result)"
  have step: "examples_loop rt co task n tgs cbs (e # rest) res s =
              examples_loop rt co task n tgs cbs rest ?res1 s1"
    using r by simp
  show ?case
  proof (cases "str_uuid co (ex_id x) \<in> (\<lambda>y. str_uuid co (ex_id y)) ` set rest")
    case True
    then obtain x' where x': "x' \<in> set rest" "str_uuid co (ex_id x') = str_uuid co (ex_id x)"
      by auto
    from Cons.IH [OF x'(1), of ?res1 s1] obtain outs y where
      o: "fst (examples_loop rt co task n tgs cbs rest ?res1 s1) (str_uuid co (ex_id x')) = Some outs"
         "y \<in> set rest" "str_uuid co (ex_id y) = str_uuid co (ex_id x')" "Q y outs"
      by blast
    have "fst (examples_loop rt co task n tgs cbs (e # rest) res s) (str_uuid co (ex_id x))
          = Some outs"
      unfolding step using o(1) x'(2) by simp
    moreover have "y \<in> set (e # rest)" using o(2) by simp
    moreover have "str_uuid co (ex_id y) = str_uuid co (ex_id x)" using o(3) x'(2) by simp
    ultimately show ?thesis using o(4) by blast
  next
    case False
    then have "x \<notin> set rest" by auto
    with Cons.prems have xe: "x = e" by simp
    have "fst (examples_loop rt co task n tgs cbs rest ?res1 s1) (str_uuid co (ex_id x))
          = ?res1 (str_uuid co (ex_id x))"
      using False by (rule examples_loop_other)
    then have "fst (examples_loop rt co task n tgs cbs (e # rest) res s) (str_uuid co (ex_id x))
          = Some result"
      unfolding step using xe by simp
    moreover have "e \<in> set (e # rest)" by simp
    ultimately show ?thesis using q xe by blast
  qed
qed

lemma run_on_examples_Inr:
  assumes "run_on_examples rt co examples task n session_name tgs s = (Inr res, s')"
  shows "\<exists>tracer evalution_handler s4.
           res = fst (examples_loop rt co task n tgs (Some [tracer, evalution_handler])
                            examples Map.empty s4)"
  using assms unfolding run_on_examples_def
  apply (auto split: prod.splits sum.splits option.splits)
  by (metis fst_conv)


lemma arun_llm_or_chain_handlers:
  "handlers (snd (arun_llm_or_chain rt ex task n tgs cbs s)) = handlers s"
proof -
  obtain outs s2 where
    r: "repeat_attempts (atry_attempt rt ex task tgs cbs) (nat n) [] (bind_example_ids ex cbs s) = (outs, s2)"
    by (cases "repeat_attempts (atry_attempt rt ex task tgs cbs) (nat n) [] (bind_example_ids ex cbs s)")
  have "handlers s2 = handlers (bind_example_ids ex cbs s)"
    using repeat_attempts_handlers [of "atry_attempt rt ex task tgs cbs" "nat n" "[]"
        "bind_example_ids ex cbs s", OF atry_attempt_handlers] r by simp
  then show ?thesis using r by (simp add: arun_llm_or_chain_def restore_after_bind)
qed

lemma bound_during_loop:
  assumes "\<And>s. handlers (snd (body s)) = handlers s"
      and "cbs = Some l" "a \<in> set l" "hasattr_example_id (handlers s a)"
  shows "example_id (handlers (state_before_attempt body k (bind_example_ids ex cbs s)) a)
           = Some (Some (ex_id ex))"
proof -
  have "handlers (state_before_attempt body k (bind_example_ids ex cbs s))
          = handlers (bind_example_ids ex cbs s)"
    unfolding state_before_attempt_def by (rule repeat_attempts_handlers) (rule assms(1))
  moreover have "l \<noteq> []" using assms(3) by auto
  ultimately show ?thesis using assms(2-4)
    by (simp add: bind_example_ids_def fold_set_example_id)
qed

lemma fold_zip_map:
  "fold g (zip (map f l) l) hs = fold (\<lambda>t. g (f t, t)) l hs"
  by (induction l arbitrary: hs) auto

lemma fold_restore:
  "fold (\<lambda>t. set_example_id (f t) t) l hs a =
     (if a \<in> set l \<and> hasattr_example_id (hs a) then (hs a)\<lparr>example_id := Some (f a)\<rparr> else hs a)"
  by (induction l arbitrary: hs) (auto simp: set_example_id_def hasattr_example_id_def)

lemma restore_to_saved:
  assumes "cbs = Some l" "a \<in> set l"
    and "hasattr_example_id (handlers s2 a) = hasattr_example_id (handlers s a)"
  shows "example_id (handlers (restore_example_ids (save_example_ids cbs s) cbs s2) a)
           = example_id (handlers s a)"
proof -
  have l: "l \<noteq> []" using assms(2) by auto
  have "handlers (restore_example_ids (save_example_ids cbs s) cbs s2) a =
        (if hasattr_example_id (handlers s2 a)
         then (handlers s2 a)\<lparr>example_id := Some (getattr_example_id (handlers s a))\<rparr>
         else handlers s2 a)"
    using assms(1,2) l
    by (simp add: restore_example_ids_def save_example_ids_def truthy_def fold_zip_map
          fold_restore)
  then show ?thesis using assms(3)
    by (auto simp: hasattr_example_id_def getattr_example_id_def)
qed

text \<open>
  Claim C8. After the repetition loop of \<open>run_llm_or_chain\<close> and of
  \<open>_arun_llm_or_chain\<close> has returned, whatever the attempts did, every handler is as it
  was before the call: a handler with the attribute \<open>example_id\<close> holds the value it
  held before, and a handler without it is untouched. During the loop, at the start of
  every attempt, each callback handler with the attribute is bound to the example. When
  other units of a concurrent run rebind a shared handler in between, the tail of the
  loop, in whatever state \<open>s2\<close> it starts, still writes back to every callback handler
  the value saved at the head.
\<close>

theorem example_ids_restored:
  "handlers (snd (run_llm_or_chain rt ex task n tgs cbs s)) = handlers s
 \<and> handlers (snd (arun_llm_or_chain rt ex task n tgs cbs s)) = handlers s
 \<and> (cbs = Some l \<and> a \<in> set l \<and> hasattr_example_id (handlers s a) \<longrightarrow>
      example_id (handlers (state_before_attempt (try_attempt rt ex task tgs cbs) k
                              (bind_example_ids ex cbs s)) a) = Some (Some (ex_id ex))
    \<and> example_id (handlers (state_before_attempt (atry_attempt rt ex task tgs cbs) k
                              (bind_example_ids ex cbs s)) a) = Some (Some (ex_id ex)))
 \<and> (cbs = Some l \<and> a \<in> set l
      \<and> hasattr_example_id (handlers s2 a) = hasattr_example_id (handlers s a) \<longrightarrow>
      example_id (handlers (restore_example_ids (save_example_ids cbs s) cbs s2) a)
        = example_id (handlers s a))"
  using restore_to_saved [of cbs l a s2 s] bound_during_loop [where body = "try_attempt rt ex task tgs cbs" and cbs = cbs and l = l
           and a = a and s = s and k = k and ex = ex, OF try_attempt_handlers]
        bound_during_loop [where body = "atry_attempt rt ex task tgs cbs" and cbs = cbs and l = l
           and a = a and s = s and k = k and ex = ex, OF atry_attempt_handlers]
  by (simp add: run_llm_or_chain_handlers arun_llm_or_chain_handlers)

theorem example_ids_restored_witness:
  "hasattr_example_id (handlers demo_state2 0)
 \<and> example_id (handlers (state_before_attempt
        (try_attempt demo_runtime (demo_example 4) (ChainFactory (demo_chain_factory 1)) None
           (Some [0, 1, 0]))
        1 (bind_example_ids (demo_example 4) (Some [0, 1, 0]) demo_state2)) 0) = Some (Some (UUID 4))
 \<and> example_id (handlers (snd (run_llm_or_chain demo_runtime (demo_example 4)
        (ChainFactory (demo_chain_factory 1)) 2 None (Some [0, 1, 0]) demo_state2)) 0)
      = Some (Some (UUID 9))
 \<and> example_id (handlers (snd (arun_llm_or_chain demo_runtime (demo_example 4)
        (ChainFactory (demo_chain_factory 1)) 2 None (Some [0, 1, 0]) demo_state2)) 1)
      = None
 \<and> example_id (handlers demo_state3 0) = Some (Some (UUID 5))
 \<and> example_id (handlers (restore_example_ids (save_example_ids (Some [0, 1, 0]) demo_state2)
        (Some [0, 1, 0]) demo_state3) 0) = Some (Some (UUID 9))"
proof -
  have h: "hasattr_example_id (handlers demo_state2 0)"
    and h3: "hasattr_example_id (handlers demo_state3 0)"
    and e3: "example_id (handlers demo_state3 0) = Some (Some (UUID 5))"
    and e0: "example_id (handlers demo_state2 0) = Some (Some (UUID 9))"
    and e1: "example_id (handlers demo_state2 (Suc 0)) = None"
    by (simp_all add: demo_state2_def demo_state3_def demo_handlers_def hasattr_example_id_def)
  have m: "(0::nat) \<in> set [0, 1, 0]" by simp
  have x: "ex_id (demo_example 4) = UUID 4" by (simp add: demo_example_def)
  from example_ids_restored [where rt = demo_runtime and ex = "demo_example 4"
      and task = "ChainFactory (demo_chain_factory 1)" and n = 2 and tgs = None
      and cbs = "Some [0, 1, 0]" and s = demo_state2 and l = "[0, 1, 0]" and a = 0 and k = 1
      and ?s2.0 = demo_state3] h h3 m
  show ?thesis by (simp add: e0 e1 e3 x)
qed

lemma run_llm_or_chain_length:
  "length (fst (run_llm_or_chain rt ex task n tgs cbs s)) = nat n"
  by (simp add: run_llm_or_chain_fst repeat_attempts_length)

lemma arun_llm_or_chain_length:
  "length (fst (arun_llm_or_chain rt ex task n tgs cbs s)) = nat n"
  by (simp add: arun_llm_or_chain_fst repeat_attempts_length)

lemma repeat_attempts_const_failure:
  assumes "\<And>s. body s = (Inl e, s)"
  shows "repeat_attempts body n outs s = (outs @ replicate n (error_record e), s)"
  by (induction n arbitrary: outs) (simp_all add: attempt_def assms replicate_append_same)

lemma get_session_name_LanguageModel:
  "get_session_name co session_name (LanguageModel llm) dataset_name s =
     (Inr (case session_name of
             Some name \<Rightarrow> name
           | None \<Rightarrow>
               (case dataset_name of None \<Rightarrow> [] | Some d \<Rightarrow> if d = [] then [] else d @ ''-'')
               @ lm_class_name llm @ ''-'' @ current_time co), s)"
  by (simp add: get_session_name_def split: option.splits)

lemma run_on_examples_session_ok:
  assumes "get_session_name co session_name task None s = (Inr name, s1)"
      and "fst (create_session co name (ext s1)) = None"
  shows "\<exists>cbs s4. fst (run_on_examples rt co examples task n session_name tgs s) =
           Inr (fst (examples_loop rt co task n tgs cbs examples Map.empty s4))"
  using assms unfolding run_on_examples_def call_create_session_def
  apply (auto split: prod.splits sum.splits option.splits)
  by (metis fst_conv)

text \<open>
  Claim C4, as stated, fails: with an unsupported language model, a batch run over one
  example raises nothing and returns a results map whose entry is an error record.
\<close>

theorem unsupported_model_counterexample:
  "\<not> isl (fst (run_on_examples demo_runtime demo_collaborators [demo_example 1]
                 (LanguageModel (demo_llm OtherLanguageModel)) 1 (Some ''session'') None
                 demo_state))
 \<and> projr (fst (run_on_examples demo_runtime demo_collaborators [demo_example 1]
                 (LanguageModel (demo_llm OtherLanguageModel)) 1 (Some ''session'') None
                 demo_state)) ''1''
      = Some [PDict [(''Error'', PStr ''Unsupported LLM type <class 'FakeLLM'>'')]]"
  by (simp add: run_on_examples_def get_session_name_def call_create_session_def
        demo_collaborators_def new_handler_def demo_state_def run_llm_or_chain_def
        save_example_ids_def bind_example_ids_def restore_example_ids_def truthy_def
        attempt_def try_attempt_def run_llm_def demo_llm_def error_record_def demo_example_def
        call_wait_for_futures_def)

section \<open>The concurrent runner: properties\<close>

lemma filter_update_count:
  "i < length xs \<Longrightarrow>
     length (filter P (xs[i := v])) + (if P (xs ! i) then 1 else 0)
       = length (filter P xs) + (if P v then 1 else 0)"
proof (induction xs arbitrary: i)
  case Nil
  then show ?case by simp
next
  case (Cons x xs)
  show ?case
  proof (cases i)
    case 0
    then show ?thesis by simp
  next
    case (Suc j)
    with Cons.prems have "j < length xs" by simp
    from Cons.IH [OF this] Suc show ?thesis by simp
  qed
qed

lemma gather_step_length:
  "gather_step fs i g = Some g1 \<Longrightarrow> length (units g1) = length (units g)"
  by (auto simp: gather_step_def split: if_splits unit_state.splits list.splits prod.splits sum.splits)

lemma gather_step_inv:
  assumes "gather_step fs i g = Some g1" and "gather_inv N g"
  shows "gather_inv N g1"
proof -
  from assms(1) have i: "i < length (units g)"
    by (auto simp: gather_step_def split: if_splits)
  note c1 = filter_update_count [OF i, of holds_permit]
  note c2 = filter_update_count [OF i, of is_Running]
  show ?thesis
  proof (cases "units g ! i")
    case Pending
    with assms i have g1: "g1 = g\<lparr>semaphore := semaphore g - 1, units := (units g)[i := Admitted]\<rparr>"
      and pos: "semaphore g \<noteq> 0"
      by (auto simp: gather_step_def split: if_splits)
    show ?thesis using assms(2) c1 [of Admitted] c2 [of Admitted] Pending pos
      by (simp add: gather_inv_def g1)
  next
    case Admitted
    with assms i obtain tracer rest where q: "tracer_queue g = tracer # rest"
      and g1: "g1 = g\<lparr>tracer_queue := rest,
                       units := (units g)[i := Running tracer (start (fs ! i) tracer)]\<rparr>"
      by (auto simp: gather_step_def split: if_splits list.splits)
    show ?thesis
      using assms(2) c1 [of "Running tracer (start (fs ! i) tracer)"]
        c2 [of "Running tracer (start (fs ! i) tracer)"] Admitted q
      by (simp add: gather_inv_def g1)
  next
    case (Running tracer l)
    obtain r job sh where res: "resume (fs ! i) l (job_state g) (shared g) = (r, job, sh)"
      by (cases "resume (fs ! i) l (job_state g) (shared g)")
    show ?thesis
    proof (cases r)
      case (Inl l1)
      with assms i Running res have
        g1: "g1 = g\<lparr>job_state := job, units := (units g)[i := Running tracer l1], shared := sh\<rparr>"
        by (auto simp: gather_step_def split: if_splits)
      show ?thesis
        using assms(2) c1 [of "Running tracer l1"] c2 [of "Running tracer l1"] Running
        by (simp add: gather_inv_def g1)
    next
      case (Inr v)
      with assms i Running res have
        g1: "semaphore g1 = semaphore g + 1" "tracer_queue g1 = tracer_queue g @ [tracer]"
            "units g1 = (units g)[i := Done v]"
        by (auto simp: gather_step_def split: if_splits)
      show ?thesis
        using assms(2) c1 [of "Done v"] c2 [of "Done v"] Running
        by (simp add: gather_inv_def g1)
    qed
  next
    case (Done r)
    with assms i show ?thesis by (auto simp: gather_step_def split: if_splits)
  qed
qed

lemma gather_run_inv:
  "gather_inv N g \<Longrightarrow> gather_inv N (gather_run fs schedule g)"
  by (induction schedule arbitrary: g) (auto split: option.splits intro: gather_step_inv)

lemma gather_run_length:
  "length (units (gather_run fs schedule g)) = length (units g)"
  by (induction schedule arbitrary: g) (auto split: option.splits simp: gather_step_length)

lemma fill_tracer_queue_length:
  "fill_tracer_queue initializer k queue sh = (Inr q, sh1) \<Longrightarrow> length q = length queue + k"
  by (induction k arbitrary: queue sh) (auto split: prod.splits sum.splits)

lemma filter_Pending:
  "filter holds_permit (map (\<lambda>f. Pending) fs) = []"
  "filter is_Running (map (\<lambda>f. Pending) fs) = []"
  by (induction fs) auto

lemma gather_init_inv:
  assumes "gather_init n initializer fs sh = Inr g"
  shows "gather_inv (nat n) g" and "length (units g) = length fs"
  using assms
  by (auto simp: gather_init_def gather_inv_def filter_Pending
        split: if_splits prod.splits sum.splits dest: fill_tracer_queue_length)

lemma filter_two_le:
  "i < length xs \<Longrightarrow> P (xs ! i) \<Longrightarrow> \<not> Q (xs ! i) \<Longrightarrow> (\<And>x. Q x \<Longrightarrow> P x)
     \<Longrightarrow> length (filter Q xs) < length (filter P xs)"
proof (induction xs arbitrary: i)
  case Nil
  then show ?case by simp
next
  case (Cons x xs)
  have le: "length (filter Q xs) \<le> length (filter P xs)"
    using Cons.prems(4) by (induction xs) auto
  show ?case
  proof (cases i)
    case 0
    then show ?thesis using Cons.prems le by auto
  next
    case (Suc j)
    then have "length (filter Q xs) < length (filter P xs)"
      using Cons.IH [of j] Cons.prems by simp
    then show ?thesis using Cons.prems(4) by auto
  qed
qed

text \<open>
  Claim C9. In a run of \<open>_gather_with_concurrency\<close> with concurrency level \<open>n\<close>, whatever
  the event loop resumes and in whatever order, at most \<open>n\<close> units are inside their
  function at any moment, and a unit that has passed the semaphore finds a tracer in the
  queue: its acquisition does not block.
\<close>

theorem concurrency_bounded:
  assumes "gather_init n initializer async_funcs sh = Inr g0"
  shows "in_flight (gather_run async_funcs schedule g0) \<le> nat n
   \<and> (\<forall>i < length async_funcs.
         units (gather_run async_funcs schedule g0) ! i = Admitted \<longrightarrow>
         gather_step async_funcs i (gather_run async_funcs schedule g0) \<noteq> None)"
proof -
  let ?g = "gather_run async_funcs schedule g0"
  have inv: "gather_inv (nat n) ?g"
    using gather_init_inv(1) [OF assms] by (rule gather_run_inv)
  have len: "length (units ?g) = length async_funcs"
    using gather_init_inv(2) [OF assms] by (simp add: gather_run_length)
  have "in_flight ?g \<le> nat n" using inv by (simp add: gather_inv_def in_flight_def)
  moreover have "gather_step async_funcs i ?g \<noteq> None"
    if i: "i < length async_funcs" and a: "units ?g ! i = Admitted" for i
  proof -
    have "length (filter is_Running (units ?g)) < length (filter holds_permit (units ?g))"
      using i a len by (intro filter_two_le [of i]) (auto elim: is_Running.elims)
    then have "tracer_queue ?g \<noteq> []" using inv by (auto simp: gather_inv_def)
    then show ?thesis using i a len
      by (auto simp: gather_step_def split: list.splits)
  qed
  ultimately show ?thesis by blast
qed

theorem concurrency_bounded_witness:
  "gather_init 1 demo_initializer [demo_async_func, demo_async_func] () = Inr demo_gather
 \<and> in_flight (gather_run [demo_async_func, demo_async_func] [0, 1, 0, 1, 0] demo_gather) \<le> nat 1
 \<and> (1::nat) < length [demo_async_func, demo_async_func]
 \<and> units (gather_run [demo_async_func, demo_async_func] [0, 0, 0, 0, 0, 1] demo_gather) ! 1
      = Admitted
 \<and> gather_step [demo_async_func, demo_async_func] 1
      (gather_run [demo_async_func, demo_async_func] [0, 0, 0, 0, 0, 1] demo_gather) \<noteq> None"
proof -
  have i: "gather_init 1 demo_initializer [demo_async_func, demo_async_func] () = Inr demo_gather"
    by (simp add: gather_init_def demo_initializer_def demo_gather_def)
  have a: "units (gather_run [demo_async_func, demo_async_func] [0, 0, 0, 0, 0, 1] demo_gather) ! 1
      = Admitted"
    by (simp add: gather_step_def demo_gather_def demo_async_func_def)
  show ?thesis
    using concurrency_bounded [OF i, of "[0, 1, 0, 1, 0]"]
      concurrency_bounded [OF i, of "[0, 0, 0, 0, 0, 1]"] i a
    by simp
qed

lemma done_set_update_same:
  assumes "i < length us" "\<not> is_Done (us ! i)" "\<not> is_Done u"
  shows "{j. j < n \<and> is_Done (us[i := u] ! j)} = {j. j < n \<and> is_Done (us ! j)}"
  using assms by (auto simp: nth_list_update split: if_splits)

lemma done_set_update_done:
  assumes "i < length us" "i < n" "is_Done u"
  shows "{j. j < n \<and> is_Done (us[i := u] ! j)} = insert i {j. j < n \<and> is_Done (us ! j)}"
  using assms by (auto simp: nth_list_update split: if_splits)

lemma arun_step_inv:
  assumes "gather_step (map (process_example rt co task n tgs eh) examples) i g = Some g1"
      and "arun_inv co examples g"
  shows "arun_inv co examples g1"
proof -
  let ?fs = "map (process_example rt co task n tgs eh) examples"
  from assms(1) have i: "i < length (units g)" "i < length examples"
    by (auto simp: gather_step_def split: if_splits)
  have f: "?fs ! i = process_example rt co task n tgs eh (examples ! i)" using i by simp
  show ?thesis
  proof (cases "units g ! i")
    case Pending
    with assms i have g1: "g1 = g\<lparr>semaphore := semaphore g - 1, units := (units g)[i := Admitted]\<rparr>"
      by (auto simp: gather_step_def split: if_splits)
    show ?thesis using assms(2) i Pending
      by (simp add: arun_inv_def g1 done_set_update_same)
  next
    case Admitted
    with assms i obtain tracer rest where
      g1: "g1 = g\<lparr>tracer_queue := rest,
                   units := (units g)[i := Running tracer (start (?fs ! i) tracer)]\<rparr>"
      by (auto simp: gather_step_def split: if_splits list.splits)
    show ?thesis using assms(2) i Admitted
      by (simp add: arun_inv_def g1 done_set_update_same)
  next
    case (Running tracer l)
    obtain r job sh where res: "resume (?fs ! i) l (job_state g) (shared g) = (r, job, sh)"
      by (cases "resume (?fs ! i) l (job_state g) (shared g)")
    show ?thesis
    proof (cases r)
      case (Inl l1)
      with assms i Running res have
        g1: "g1 = g\<lparr>job_state := job, units := (units g)[i := Running tracer l1], shared := sh\<rparr>"
        by (auto simp: gather_step_def split: if_splits)
      have "results sh = results (shared g)"
        using res Inl unfolding f process_example_def
        by (auto simp: Let_def split: process_local.splits if_splits prod.splits)
      then show ?thesis using assms(2) i Running
        by (simp add: arun_inv_def g1 done_set_update_same)
    next
      case (Inr v)
      with assms i Running res have
        g1: "units g1 = (units g)[i := Done v]" "shared g1 = sh"
            "first_raised g1 = (case first_raised g of Some e \<Rightarrow> Some e
                                 | None \<Rightarrow> (case v of Inl e \<Rightarrow> Some e | Inr u \<Rightarrow> None))"
        by (auto simp: gather_step_def split: if_splits)
      have v: "v = Inr ()" and
        "\<exists>outs. results sh = (results (shared g))(str_uuid co (ex_id (examples ! i)) \<mapsto> outs)"
        using res Inr unfolding f process_example_def
        by (auto simp: Let_def split: process_local.splits if_splits prod.splits)
      then have "dom (results sh) = insert (str_uuid co (ex_id (examples ! i))) (dom (results (shared g)))"
        by auto
      then show ?thesis using assms(2) i v
        by (simp add: arun_inv_def g1 done_set_update_done)
    qed
  next
    case (Done r)
    with assms i show ?thesis by (auto simp: gather_step_def split: if_splits)
  qed
qed

lemma arun_run_inv:
  "arun_inv co examples g \<Longrightarrow>
     arun_inv co examples (gather_run (map (process_example rt co task n tgs eh) examples) schedule g)"
  by (induction schedule arbitrary: g) (auto split: option.splits intro: arun_step_inv)

lemma fill_tracer_queue_results:
  "fill_tracer_queue (tracer_initializer co name) k queue sh = (r, sh1) \<Longrightarrow>
     results sh1 = results sh"
  by (induction k arbitrary: queue sh)
     (auto simp: tracer_initializer_def split: prod.splits sum.splits if_splits)

lemma arun_init_inv:
  assumes "gather_init c (tracer_initializer co name)
             (map (process_example rt co task n tgs eh) examples)
             \<lparr>results = Map.empty, run_state = s\<rparr> = Inr g"
  shows "arun_inv co examples g"
  using assms
  by (auto simp: gather_init_def arun_inv_def
        split: if_splits prod.splits sum.splits dest: fill_tracer_queue_results)

lemma all_done_set:
  assumes "list_all is_Done us" "length us = n"
  shows "{j. j < n \<and> is_Done (us ! j)} = {..<n}"
  using assms by (auto simp: list_all_length)

lemma arun_on_examples_dom:
  assumes "arun_on_examples rt co examples task c n session_name tgs schedule s = Some (Inr res, s1)"
  shows "dom res = (\<lambda>x. str_uuid co (ex_id x)) ` set examples"
proof -
  from assms obtain g where inv: "arun_inv co examples g" and d: "list_all is_Done (units g)"
    and r: "res = results (shared g)"
    unfolding arun_on_examples_def
    by (auto simp: Let_def split: prod.splits sum.splits option.splits if_splits
          intro: arun_run_inv arun_init_inv)
  have "dom res = (\<lambda>i. str_uuid co (ex_id (examples ! i))) ` {..<length examples}"
    using inv d r by (simp add: arun_inv_def all_done_set)
  also have "\<dots> = (\<lambda>x. str_uuid co (ex_id x)) ` ((\<lambda>i. examples ! i) ` {..<length examples})"
    by (simp add: image_image)
  also have "(\<lambda>i. examples ! i) ` {..<length examples} = set examples"
    by (auto simp: set_conv_nth)
  finally show ?thesis .
qed

lemma gather_run_append:
  "gather_run fs (xs @ ys) g = gather_run fs ys (gather_run fs xs g)"
  by (induction xs arbitrary: g) auto

lemma step_entered:
  assumes "units g ! i = Running t (Entered t1)" "i < length (units g)" "i < length examples"
  shows "\<exists>g1 cbs prev.
           gather_step (map (process_example rt co task n tgs eh) examples) i g = Some g1
         \<and> units g1 = (units g)[i := Running t (Looping cbs prev [])]
         \<and> first_raised g1 = first_raised g"
  using assms by (simp add: gather_step_def process_example_def Let_def) blast

lemma step_looping:
  assumes "units g ! i = Running t (Looping cbs prev outs)" "i < length (units g)"
    "i < length examples" "length outs < nat n"
  shows "\<exists>g1 out.
           gather_step (map (process_example rt co task n tgs eh) examples) i g = Some g1
         \<and> units g1 = (units g)[i := Running t (Looping cbs prev (outs @ [out]))]
         \<and> first_raised g1 = first_raised g"
  using assms by (simp add: gather_step_def process_example_def split: prod.splits) blast

lemma step_finish:
  assumes "units g ! i = Running t (Looping cbs prev outs)" "i < length (units g)"
    "i < length examples" "\<not> length outs < nat n"
  shows "\<exists>g1.
           gather_step (map (process_example rt co task n tgs eh) examples) i g = Some g1
         \<and> units g1 = (units g)[i := Done (Inr ())]
         \<and> first_raised g1 = first_raised g"
  using assms by (simp add: gather_step_def process_example_def split: option.splits)

lemma loop_run:
  assumes "units g ! i = Running t (Looping cbs prev outs)" "i < length (units g)"
    "i < length examples" "length outs + d = nat n"
  shows "units (gather_run (map (process_example rt co task n tgs eh) examples)
                  (replicate (Suc d) i) g) = (units g)[i := Done (Inr ())]
       \<and> first_raised (gather_run (map (process_example rt co task n tgs eh) examples)
                  (replicate (Suc d) i) g) = first_raised g"
  using assms
proof (induction d arbitrary: g outs)
  case 0
  then have "\<not> length outs < nat n" by simp
  from step_finish [OF 0(1-3) this, of rt co task tgs eh] show ?case by auto
next
  case (Suc d)
  then have "length outs < nat n" by simp
  from step_looping [OF Suc.prems(1-3) this, of rt co task tgs eh] obtain g1 out where
    g1: "gather_step (map (process_example rt co task n tgs eh) examples) i g = Some g1"
        "units g1 = (units g)[i := Running t (Looping cbs prev (outs @ [out]))]"
        "first_raised g1 = first_raised g"
    by blast
  have "units g1 ! i = Running t (Looping cbs prev (outs @ [out]))"
    using g1(2) Suc.prems(2) by simp
  moreover have "i < length (units g1)" using g1(2) Suc.prems(2) by simp
  moreover have "length (outs @ [out]) + d = nat n" using Suc.prems(4) by simp
  ultimately have
    "units (gather_run (map (process_example rt co task n tgs eh) examples)
                  (replicate (Suc d) i) g1) = (units g1)[i := Done (Inr ())]
       \<and> first_raised (gather_run (map (process_example rt co task n tgs eh) examples)
                  (replicate (Suc d) i) g1) = first_raised g1"
    using Suc.IH [of g1 "outs @ [out]"] Suc.prems(3) by blast
  then show ?case using g1 by simp
qed

lemma filter_none: "(\<And>x. x \<in> set xs \<Longrightarrow> \<not> P x) \<Longrightarrow> filter P xs = []"
  by (induction xs) auto

lemma run_unit:
  assumes inv: "gather_inv N g" and N: "0 < N"
    and len: "length (units g) = length examples" and i: "i < length examples"
    and p: "units g ! i = Pending" and quiet: "\<And>u. u \<in> set (units g) \<Longrightarrow> \<not> holds_permit u"
  shows "units (gather_run (map (process_example rt co task n tgs eh) examples)
                  (replicate (nat n + 4) i) g) = (units g)[i := Done (Inr ())]
       \<and> first_raised (gather_run (map (process_example rt co task n tgs eh) examples)
                  (replicate (nat n + 4) i) g) = first_raised g"
proof -
  let ?fs = "map (process_example rt co task n tgs eh) examples"
  have il: "i < length (units g)" using i len by simp
  \<comment> \<open>the unit enters the semaphore\<close>
  have "filter holds_permit (units g) = []" using quiet by (rule filter_none)
  then have sem: "semaphore g \<noteq> 0" using inv N by (simp add: gather_inv_def)
  define g1 where "g1 = g\<lparr>semaphore := semaphore g - 1, units := (units g)[i := Admitted]\<rparr>"
  have s1: "gather_step ?fs i g = Some g1"
    using il i p sem by (simp add: gather_step_def g1_def)
  have inv1: "gather_inv N g1" using s1 inv by (rule gather_step_inv)
  have u1: "units g1 = (units g)[i := Admitted]" and f1: "first_raised g1 = first_raised g"
    by (simp_all add: g1_def)
  \<comment> \<open>it takes a tracer from the queue\<close>
  have "\<not> is_Running u" if "u \<in> set (units g1)" for u
  proof -
    from that have "u = Admitted \<or> u \<in> set (units g)"
      unfolding u1 using set_update_subset_insert [of "units g" i Admitted] by auto
    then show ?thesis using quiet [of u] by (cases u) auto
  qed
  then have "filter is_Running (units g1) = []" by (rule filter_none)
  then have "tracer_queue g1 \<noteq> []" using inv1 N by (auto simp: gather_inv_def)
  then obtain t q where tq: "tracer_queue g1 = t # q" by (cases "tracer_queue g1") auto
  define g2 where
    "g2 = g1\<lparr>tracer_queue := q, units := (units g1)[i := Running t (Entered t)]\<rparr>"
  have s2: "gather_step ?fs i g1 = Some g2"
    using il i tq by (simp add: gather_step_def g2_def u1 process_example_def)
  have u2: "units g2 = (units g)[i := Running t (Entered t)]"
    and f2: "first_raised g2 = first_raised g"
    by (simp_all add: g2_def u1 f1)
  \<comment> \<open>it enters the repetition loop\<close>
  have "units g2 ! i = Running t (Entered t)" "i < length (units g2)"
    using il by (simp_all add: u2)
  from step_entered [OF this i, of rt co task n tgs eh] obtain g3 cbs prev where
    s3: "gather_step ?fs i g2 = Some g3"
    and u3: "units g3 = (units g2)[i := Running t (Looping cbs prev [])]"
    and f3: "first_raised g3 = first_raised g2"
    by blast
  \<comment> \<open>it makes its attempts and returns\<close>
  have "units g3 ! i = Running t (Looping cbs prev [])" "i < length (units g3)"
    using il by (simp_all add: u3 u2)
  from loop_run [OF this i, of "nat n" n rt co task tgs eh]
  have l: "units (gather_run ?fs (replicate (Suc (nat n)) i) g3) = (units g3)[i := Done (Inr ())]"
          "first_raised (gather_run ?fs (replicate (Suc (nat n)) i) g3) = first_raised g3"
    by simp_all
  have "replicate (nat n + 4) i = i # i # i # replicate (Suc (nat n)) i"
    by (simp add: numeral_Bit0 flip: replicate_Suc)
  then have "gather_run ?fs (replicate (nat n + 4) i) g
           = gather_run ?fs (replicate (Suc (nat n)) i) g3"
    using s1 s2 s3 by simp
  then show ?thesis using l by (simp add: u3 u2 f3 f2)
qed

lemma one_by_one_Suc: "one_by_one m (Suc j) = one_by_one m j @ replicate (m + 4) j"
  by (simp add: one_by_one_def)

lemma run_one_by_one:
  assumes inv: "gather_inv N g0" and N: "0 < N"
    and u0: "units g0 = replicate (length examples) Pending"
    and j: "j \<le> length examples"
  shows "units (gather_run (map (process_example rt co task n tgs eh) examples)
                  (one_by_one (nat n) j) g0)
           = replicate j (Done (Inr ())) @ replicate (length examples - j) Pending
       \<and> first_raised (gather_run (map (process_example rt co task n tgs eh) examples)
                  (one_by_one (nat n) j) g0) = first_raised g0"
  using j
proof (induction j)
  case 0
  then show ?case by (simp add: one_by_one_def u0)
next
  case (Suc j)
  let ?fs = "map (process_example rt co task n tgs eh) examples"
  let ?g = "gather_run ?fs (one_by_one (nat n) j) g0"
  from Suc have u: "units ?g = replicate j (Done (Inr ())) @ replicate (length examples - j) Pending"
    and f: "first_raised ?g = first_raised g0" and jl: "j < length examples"
    by simp_all
  have invg: "gather_inv N ?g" using inv by (rule gather_run_inv)
  have len: "length (units ?g) = length examples" using jl by (simp add: u)
  have p: "units ?g ! j = Pending" using jl by (simp add: u nth_append)
  have quiet: "\<not> holds_permit v" if "v \<in> set (units ?g)" for v
    using that by (auto simp: u)
  from run_unit [OF invg N len jl p quiet, of rt co task n tgs eh]
  have r: "units (gather_run ?fs (replicate (nat n + 4) j) ?g) = (units ?g)[j := Done (Inr ())]"
          "first_raised (gather_run ?fs (replicate (nat n + 4) j) ?g) = first_raised ?g"
    by simp_all
  have "length examples - j = Suc (length examples - Suc j)" using jl by simp
  then have "(units ?g)[j := Done (Inr ())]
        = replicate (Suc j) (Done (Inr ())) @ replicate (length examples - Suc j) Pending"
    by (simp add: u list_update_append replicate_append_same)
  then show ?case using r f by (simp add: one_by_one_Suc gather_run_append)
qed

lemma fill_tracer_queue_ok:
  "\<exists>q sh1. fill_tracer_queue (tracer_initializer co name) k queue sh = (Inr q, sh1)"
  by (induction k arbitrary: queue sh)
     (auto simp: tracer_initializer_def split: prod.splits)

lemma arun_on_examples_returns:
  assumes "get_session_name co session_name task None s = (Inr name, s1)"
      and "fst (create_session co name (ext s1)) = None"
      and "0 < c"
  shows "\<exists>res s2. arun_on_examples rt co examples task c n session_name tgs
                    (one_by_one (nat n) (length examples)) s = Some (Inr res, s2)"
proof -
  obtain s2 where cs: "call_create_session co name s1 = (None, s2)"
    using assms(2) by (cases "create_session co name (ext s1)") (simp add: call_create_session_def)
  obtain eh s3 where nh: "new_handler (new_evaluator co) s2 = (eh, s3)"
    by (cases "new_handler (new_evaluator co) s2")
  let ?fs = "map (process_example rt co task n tgs eh) examples"
  obtain q sh1 where
    fq: "fill_tracer_queue (tracer_initializer co name) (nat c) []
           \<lparr>results = Map.empty, run_state = s3\<rparr> = (Inr q, sh1)"
    using fill_tracer_queue_ok by blast
  define g0 :: "(process_local, unit, 'a arun_shared) gather" where
    "g0 = \<lparr>semaphore = nat c, tracer_queue = q, job_state = 0,
           units = map (\<lambda>f. Pending) ?fs, first_raised = None, shared = sh1\<rparr>"
  have gi: "gather_init c (tracer_initializer co name) ?fs \<lparr>results = Map.empty, run_state = s3\<rparr>
              = Inr g0"
    using assms(3) fq by (simp add: gather_init_def g0_def)
  have inv: "gather_inv (nat c) g0" using gi by (rule gather_init_inv(1))
  have u0: "units g0 = replicate (length examples) Pending"
    by (simp add: g0_def map_replicate_const)
  from run_one_by_one [OF inv _ u0 order_refl, of rt co task n tgs eh] assms(3)
  have "units (gather_run ?fs (one_by_one (nat n) (length examples)) g0)
          = replicate (length examples) (Done (Inr ()))"
    and fr: "first_raised (gather_run ?fs (one_by_one (nat n) (length examples)) g0) = None"
    by (simp_all add: g0_def)
  then have "list_all is_Done (units (gather_run ?fs (one_by_one (nat n) (length examples)) g0))"
    by (simp add: list_all_iff)
  then show ?thesis
    using assms(1) cs nh gi fr by (simp add: arun_on_examples_def Let_def)
qed

lemma run_on_examples_dom:
  assumes "run_on_examples rt co examples task n session_name tgs s = (Inr res, s1)"
  shows "dom res = (\<lambda>x. str_uuid co (ex_id x)) ` set examples"
proof -
  from run_on_examples_Inr [OF assms] obtain tracer evalution_handler s4 where
    "res = fst (examples_loop rt co task n tgs (Some [tracer, evalution_handler])
                  examples Map.empty s4)"
    by blast
  then show ?thesis by (simp only: examples_loop_dom) simp
qed

lemma card_keys:
  assumes "inj (str_uuid co)" "distinct (map ex_id examples)"
  shows "card ((\<lambda>x. str_uuid co (ex_id x)) ` set examples) = length examples"
proof -
  have "distinct (map (str_uuid co) (map ex_id examples))"
    using assms by (simp add: distinct_map inj_on_subset [of _ UNIV] del: map_map)
  then have "card (set (map (str_uuid co) (map ex_id examples))) = length examples"
    using distinct_card by fastforce
  then show ?thesis by (simp add: image_image)
qed

text \<open>
  Claim C1. For examples with pairwise distinct identifiers, whose string forms are
  then distinct too, the results map that \<open>run_on_examples\<close> or \<open>arun_on_examples\<close>
  returns has exactly the keys \<open>str(example.id)\<close> of the examples, so as many entries as
  there are examples. And they do return: once the session is created, the sequential
  runner returns a map, and so does the concurrent one under a concurrency level of at
  least 1, when the event loop takes the units one by one.
\<close>

theorem results_one_entry_per_example:
  assumes "inj (str_uuid co)" and "distinct (map ex_id examples)"
  shows "(run_on_examples rt co examples task n session_name tgs s = (Inr res, s1) \<longrightarrow>
            dom res = (\<lambda>x. str_uuid co (ex_id x)) ` set examples
          \<and> card (dom res) = length examples)
       \<and> (arun_on_examples rt co examples task c n session_name tgs schedule s
            = Some (Inr ares, s2) \<longrightarrow>
            dom ares = (\<lambda>x. str_uuid co (ex_id x)) ` set examples
          \<and> card (dom ares) = length examples)
       \<and> (get_session_name co session_name task None s = (Inr name, s3)
            \<and> fst (create_session co name (ext s3)) = None \<longrightarrow>
            (\<exists>r. fst (run_on_examples rt co examples task n session_name tgs s) = Inr r)
          \<and> (0 < c \<longrightarrow>
               (\<exists>r s4. arun_on_examples rt co examples task c n session_name tgs
                          (one_by_one (nat n) (length examples)) s = Some (Inr r, s4))))"
  using card_keys [OF assms] run_on_examples_dom [of rt co examples task n session_name tgs s res s1]
    arun_on_examples_dom [of rt co examples task c n session_name tgs schedule s ares s2]
    run_on_examples_session_ok [of co session_name task s name s3 rt examples n tgs]
    arun_on_examples_returns [of co session_name task s name s3 c rt examples n tgs]
  by auto

lemma inj_demo_str_uuid: "inj (str_uuid demo_collaborators)"
proof (rule injI)
  fix x y assume "str_uuid demo_collaborators x = str_uuid demo_collaborators y"
  then have "length (str_uuid demo_collaborators x) = length (str_uuid demo_collaborators y)"
    by simp
  then show "x = y" by (cases x, cases y) (simp add: demo_collaborators_def)
qed

theorem results_one_entry_per_example_witness:
  "inj (str_uuid demo_collaborators)
 \<and> distinct (map ex_id [demo_example 1, demo_example 2])
 \<and> dom (projr (fst (run_on_examples demo_runtime demo_collaborators
                       [demo_example 1, demo_example 2] (ChainFactory (demo_chain_factory 1)) 2
                       (Some ''session'') None demo_state))) = {''1'', ''11''}
 \<and> card (dom (projr (fst (the (arun_on_examples demo_runtime demo_collaborators
                       [demo_example 1, demo_example 2] (ChainFactory (demo_chain_factory 1)) 2 2
                       (Some ''session'') None (one_by_one 2 2) demo_state))))) = 2"
proof -
  let ?xs = "[demo_example 1, demo_example 2]"
  let ?task = "ChainFactory (demo_chain_factory 1)"
  let ?X = "run_on_examples demo_runtime demo_collaborators ?xs ?task 2 (Some ''session'') None
              demo_state"
  let ?A = "arun_on_examples demo_runtime demo_collaborators ?xs ?task 2 2 (Some ''session'') None
              (one_by_one 2 2) demo_state"
  have d: "distinct (map ex_id ?xs)" by (simp add: demo_example_def)
  have g: "get_session_name demo_collaborators (Some ''session'') ?task None demo_state
             = (Inr ''session'', demo_state)"
    by (simp add: get_session_name_def)
  have c: "fst (create_session demo_collaborators ''session'' (ext demo_state)) = None"
    by (simp add: demo_collaborators_def)
  have k: "(\<lambda>x. str_uuid demo_collaborators (ex_id x)) ` set ?xs = {''1'', ''11''}"
    by (simp add: demo_collaborators_def demo_example_def numeral_2_eq_2)
  note th = results_one_entry_per_example [OF inj_demo_str_uuid d, where rt = demo_runtime
      and task = ?task and n = 2 and session_name = "Some ''session''" and tgs = None
      and s = demo_state and c = 2 and name = "''session''" and ?s3.0 = demo_state]
  have pos: "(0::int) < 2" by simp
  from th [where schedule = "[]"] g c obtain r where r: "fst ?X = Inr r" by blast
  then have X: "?X = (Inr r, snd ?X)" by (cases ?X) simp
  from th [where schedule = "[]"] g c pos obtain ar s4 where "arun_on_examples demo_runtime
      demo_collaborators ?xs ?task 2 2 (Some ''session'') None (one_by_one (nat 2) (length ?xs))
      demo_state = Some (Inr ar, s4)"
    by blast
  moreover have "nat 2 = 2" "length ?xs = 2" by simp_all
  ultimately have A: "?A = Some (Inr ar, s4)" by (simp only:)
  from th [where res = r and ?s1.0 = "snd ?X" and schedule = "one_by_one 2 2" and ares = ar
      and ?s2.0 = s4] X A k
  have "dom r = {''1'', ''11''}" "card (dom ar) = 2" by simp_all
  then show ?thesis using inj_demo_str_uuid d r A by simp
qed

section \<open>The isolation of failures\<close>

lemma step_looping_exact:
  assumes "units g ! i = Running t (Looping cbs prev outs)" "i < length (units g)"
    "i < length examples" "length outs < nat n"
  shows "gather_step (map (process_example rt co task n tgs eh) examples) i g =
           Some (g\<lparr>units := (units g)[i := Running t (Looping cbs prev
                      (outs @ [fst (attempt (atry_attempt rt (examples ! i) task tgs cbs)
                                      (run_state (shared g)))]))],
                   shared := (shared g)\<lparr>run_state :=
                      snd (attempt (atry_attempt rt (examples ! i) task tgs cbs)
                             (run_state (shared g)))\<rparr>\<rparr>)"
  using assms by (simp add: gather_step_def process_example_def split: prod.splits)

lemma step_finish_exact:
  assumes "units g ! i = Running t (Looping cbs prev outs)" "i < length (units g)"
    "i < length examples" "\<not> length outs < nat n"
  shows "gather_step (map (process_example rt co task n tgs eh) examples) i g =
           Some (g\<lparr>semaphore := semaphore g + 1,
                   tracer_queue := tracer_queue g @ [t],
                   job_state := Suc (job_state g),
                   units := (units g)[i := Done (Inr ())],
                   shared := (shared g)
                     \<lparr>results := (results (shared g))(str_uuid co (ex_id (examples ! i)) \<mapsto> outs),
                      run_state := restore_example_ids prev cbs (run_state (shared g))\<rparr>\<rparr>)"
  using assms by (cases "first_raised g") (simp_all add: gather_step_def process_example_def)

lemma step_entered_exact:
  assumes "units g ! i = Running t (Entered t1)" "i < length (units g)" "i < length examples"
  shows "gather_step (map (process_example rt co task n tgs eh) examples) i g =
           Some (g\<lparr>units := (units g)[i := Running t
                     (Looping (Some ((case t1 of None \<Rightarrow> [] | Some a \<Rightarrow> [a]) @ [eh]))
                        (save_example_ids (Some ((case t1 of None \<Rightarrow> [] | Some a \<Rightarrow> [a]) @ [eh]))
                           (run_state (shared g))) [])],
                   shared := (shared g)\<lparr>run_state :=
                     bind_example_ids (examples ! i)
                       (Some ((case t1 of None \<Rightarrow> [] | Some a \<Rightarrow> [a]) @ [eh]))
                       (run_state (shared g))\<rparr>\<rparr>)"
  using assms by (simp add: gather_step_def process_example_def Let_def)







lemma arun_entries_step:
  assumes st: "gather_step (map (process_example rt co task n tgs eh) examples) i g = Some g1"
      and inv: "arun_entries_inv P n co examples g"
      and P: "\<And>i cbs s. i < length examples \<Longrightarrow>
                P i (fst (attempt (atry_attempt rt (examples ! i) task tgs cbs) s))"
  shows "arun_entries_inv P n co examples g1"
proof -
  let ?fs = "map (process_example rt co task n tgs eh) examples"
  from st have i: "i < length (units g)" "i < length examples"
    by (auto simp: gather_step_def split: if_splits)
  have other: "arun_entries_inv P n co examples g1"
    if u: "units g1 = (units g)[i := v]" and r: "results (shared g1) = results (shared g)"
      and v: "\<And>t cbs prev outs. v = Running t (Looping cbs prev outs) \<Longrightarrow>
                length outs \<le> nat n \<and> (\<forall>out \<in> set outs. P i out)" for v
  proof -
    have A: "length outs \<le> nat n \<and> (\<forall>out \<in> set outs. P j out)"
      if a: "j < length (units g1)" "units g1 ! j = Running t (Looping cbs prev outs)"
      for j t cbs prev outs
    proof (cases "j = i")
      case True
      then show ?thesis using a u i v by simp
    next
      case False
      then show ?thesis using a u inv unfolding arun_entries_inv_def by simp
    qed
    have B: "length outs = nat n
        \<and> (\<exists>i<length examples. key = str_uuid co (ex_id (examples ! i))
                  \<and> (\<forall>out \<in> set outs. P i out))"
      if "results (shared g1) key = Some outs" for key outs
    proof -
      from that have "results (shared g) key = Some outs" using r by simp
      then show ?thesis using inv unfolding arun_entries_inv_def by blast
    qed
    show ?thesis unfolding arun_entries_inv_def using A B by blast
  qed
  show ?thesis
  proof (cases "units g ! i")
    case Pending
    with st i have "g1 = g\<lparr>semaphore := semaphore g - 1, units := (units g)[i := Admitted]\<rparr>"
      by (auto simp: gather_step_def split: if_splits)
    then show ?thesis by (intro other [of Admitted]) simp_all
  next
    case Admitted
    with st i obtain tracer rest where
      "g1 = g\<lparr>tracer_queue := rest,
               units := (units g)[i := Running tracer (Entered tracer)]\<rparr>"
      by (auto simp: gather_step_def process_example_def split: if_splits list.splits)
    then show ?thesis by (intro other [of "Running tracer (Entered tracer)"]) simp_all
  next
    case (Running t l)
    show ?thesis
    proof (cases l)
      case (Entered t1)
      from step_entered_exact [OF Running [unfolded Entered] i, of rt co task n tgs eh] st
      obtain cbs prev where
        "units g1 = (units g)[i := Running t (Looping cbs prev [])]"
        "results (shared g1) = results (shared g)"
        by auto
      then show ?thesis by (intro other [of "Running t (Looping cbs prev [])"]) simp_all
    next
      case (Looping cbs prev outs)
      from inv Running Looping i have lo: "length outs \<le> nat n" "\<forall>out \<in> set outs. P i out"
        unfolding arun_entries_inv_def by blast+
      show ?thesis
      proof (cases "length outs < nat n")
        case True
        let ?out = "fst (attempt (atry_attempt rt (examples ! i) task tgs cbs)
                           (run_state (shared g)))"
        from step_looping_exact [OF Running [unfolded Looping] i True, of rt co task tgs eh] st
        have "units g1 = (units g)[i := Running t (Looping cbs prev (outs @ [?out]))]"
          "results (shared g1) = results (shared g)"
          by auto
        moreover have "P i ?out" using P i(2) by simp
        ultimately show ?thesis using lo True
          by (intro other [of "Running t (Looping cbs prev (outs @ [?out]))"]) auto
      next
        case False
        with lo have ln: "length outs = nat n" by simp
        from step_finish_exact [OF Running [unfolded Looping] i False, of rt co task tgs eh] st
        have u: "units g1 = (units g)[i := Done (Inr ())]"
          and r: "results (shared g1)
                    = (results (shared g))(str_uuid co (ex_id (examples ! i)) \<mapsto> outs)"
          by auto
        have A: "length outs' \<le> nat n \<and> (\<forall>out \<in> set outs'. P j out)"
          if a: "j < length (units g1)" "units g1 ! j = Running t' (Looping cbs' prev' outs')"
          for j t' cbs' prev' outs'
        proof -
          have "j \<noteq> i" using a u i by auto
          then show ?thesis using a u inv unfolding arun_entries_inv_def by simp
        qed
        have B: "length outs' = nat n
            \<and> (\<exists>i<length examples. key = str_uuid co (ex_id (examples ! i))
                  \<and> (\<forall>out \<in> set outs'. P i out))"
          if a: "results (shared g1) key = Some outs'" for key outs'
        proof (cases "key = str_uuid co (ex_id (examples ! i))")
          case True
          then have "outs' = outs" using a r by simp
          then show ?thesis using True lo(2) i(2) ln by blast
        next
          case False
          then have "results (shared g) key = Some outs'" using a r by simp
          then show ?thesis using inv unfolding arun_entries_inv_def by blast
        qed
        show ?thesis unfolding arun_entries_inv_def using A B by blast
      qed
    qed
  next
    case (Done r)
    with st i show ?thesis by (auto simp: gather_step_def split: if_splits)
  qed
qed

lemma arun_entries_run:
  assumes "arun_entries_inv P n co examples g"
      and "\<And>i cbs s. i < length examples \<Longrightarrow>
                P i (fst (attempt (atry_attempt rt (examples ! i) task tgs cbs) s))"
  shows "arun_entries_inv P n co examples
           (gather_run (map (process_example rt co task n tgs eh) examples) schedule g)"
  using assms(1)
proof (induction schedule arbitrary: g)
  case Nil
  then show ?case by simp
next
  case (Cons i schedule)
  show ?case
  proof (cases "gather_step (map (process_example rt co task n tgs eh) examples) i g")
    case None
    then show ?thesis using Cons by simp
  next
    case (Some g1)
    have "arun_entries_inv P n co examples g1"
      using Some Cons.prems assms(2) by (rule arun_entries_step)
    then show ?thesis using Some Cons.IH by simp
  qed
qed

lemma arun_entries_init:
  assumes "gather_init c (tracer_initializer co name)
             (map (process_example rt co task n tgs eh) examples)
             \<lparr>results = Map.empty, run_state = s\<rparr> = Inr g"
  shows "arun_entries_inv P n co examples g"
proof -
  from assms obtain queue sh1 where
    f: "fill_tracer_queue (tracer_initializer co name) (nat c) []
          \<lparr>results = Map.empty, run_state = s\<rparr> = (Inr queue, sh1)"
    and g: "units g = map (\<lambda>f. Pending) (map (process_example rt co task n tgs eh) examples)"
           "shared g = sh1"
    by (auto simp: gather_init_def split: if_splits prod.splits sum.splits)
  have "results sh1 = Map.empty" using fill_tracer_queue_results [OF f] by simp
  then show ?thesis using g by (auto simp: arun_entries_inv_def)
qed

lemma arun_on_examples_entries:
  assumes "arun_on_examples rt co examples task c n session_name tgs schedule s = Some (Inr res, s1)"
      and "\<And>i cbs s. i < length examples \<Longrightarrow>
                P i (fst (attempt (atry_attempt rt (examples ! i) task tgs cbs) s))"
      and "x \<in> set examples"
  shows "\<exists>outs. res (str_uuid co (ex_id x)) = Some outs \<and> length outs = nat n
           \<and> (\<exists>i < length examples. str_uuid co (ex_id (examples ! i)) = str_uuid co (ex_id x)
                 \<and> (\<forall>out \<in> set outs. P i out))"
proof -
  from assms(1) obtain g where inv: "arun_entries_inv P n co examples g"
    and r: "res = results (shared g)"
    unfolding arun_on_examples_def
    by (auto simp: Let_def split: prod.splits sum.splits option.splits if_splits
          intro: arun_entries_run arun_entries_init assms(2))
  have "str_uuid co (ex_id x) \<in> dom res"
    using arun_on_examples_dom [OF assms(1)] assms(3) by auto
  then obtain outs where o: "res (str_uuid co (ex_id x)) = Some outs" by auto
  with inv r show ?thesis unfolding arun_entries_inv_def by metis
qed





lemma arun_on_examples_no_raise:
  assumes "get_session_name co session_name task None s = (Inr name, s1)"
      and "fst (create_session co name (ext s1)) = None"
      and "0 \<le> c"
  shows "arun_on_examples rt co examples task c n session_name tgs schedule s \<noteq> Some (Inl e, s2)"
proof -
  obtain s2' where cs: "call_create_session co name s1 = (None, s2')"
    using assms(2) by (cases "create_session co name (ext s1)") (simp add: call_create_session_def)
  obtain eh s3 where nh: "new_handler (new_evaluator co) s2' = (eh, s3)"
    by (cases "new_handler (new_evaluator co) s2'")
  let ?fs = "map (process_example rt co task n tgs eh) examples"
  obtain q sh1 where
    fq: "fill_tracer_queue (tracer_initializer co name) (nat c) []
           \<lparr>results = Map.empty, run_state = s3\<rparr> = (Inr q, sh1)"
    using fill_tracer_queue_ok by blast
  then obtain g0 where
    gi: "gather_init c (tracer_initializer co name) ?fs \<lparr>results = Map.empty, run_state = s3\<rparr>
              = Inr g0"
    using assms(3) by (simp add: gather_init_def)
  have "arun_inv co examples (gather_run ?fs schedule g0)"
    using gi by (intro arun_run_inv arun_init_inv)
  then have "first_raised (gather_run ?fs schedule g0) = None" by (simp add: arun_inv_def)
  then show ?thesis
    using assms(1) cs nh gi by (simp add: arun_on_examples_def Let_def)
qed












text \<open>
  Claim C4, amended. For a language model that is neither a \<open>BaseLLM\<close> nor a
  \<open>BaseChatModel\<close>, \<open>run_llm\<close> and \<open>_arun_llm\<close> raise \<open>ValueError\<close>, and the
  repetition loop catches it at every attempt: the outputs of an example are
  \<open>n_repetitions\<close> error records \<open>{"Error": "Unsupported LLM type ..."}\<close>. The batch
  run, sequential or concurrent, once its session is created, raises nothing to its
  caller and returns a results map that holds these records for every example.
\<close>

theorem unsupported_model_recorded:
  "lm_kind llm = OtherLanguageModel \<longrightarrow>
     run_llm rt llm inps cbs tgs s = (Inl (ValueError (''Unsupported LLM type '' @ lm_type llm)), s)
   \<and> arun_llm rt llm inps tgs cbs s = (Inl (ValueError (''Unsupported LLM type '' @ lm_type llm)), s)
   \<and> fst (run_llm_or_chain rt ex (LanguageModel llm) n tgs cbs s) =
       replicate (nat n) (PDict [(''Error'', PStr (''Unsupported LLM type '' @ lm_type llm))])
   \<and> fst (arun_llm_or_chain rt ex (LanguageModel llm) n tgs cbs s) =
       replicate (nat n) (PDict [(''Error'', PStr (''Unsupported LLM type '' @ lm_type llm))])
   \<and> (fst (create_session co
               (case session_name of
                  Some name \<Rightarrow> name
                | None \<Rightarrow> lm_class_name llm @ ''-'' @ current_time co) (ext s)) = None \<longrightarrow>
        \<not> isl (fst (run_on_examples rt co examples (LanguageModel llm) n session_name tgs s))
      \<and> (\<forall>x \<in> set examples.
            projr (fst (run_on_examples rt co examples (LanguageModel llm) n session_name tgs s))
              (str_uuid co (ex_id x)) =
            Some (replicate (nat n)
                    (PDict [(''Error'', PStr (''Unsupported LLM type '' @ lm_type llm))])))
      \<and> (0 \<le> c
           \<and> arun_on_examples rt co examples (LanguageModel llm) c n session_name tgs schedule s
               = Some (r, s1) \<longrightarrow>
           \<not> isl r
         \<and> (\<forall>x \<in> set examples.
               projr r (str_uuid co (ex_id x)) =
               Some (replicate (nat n)
                       (PDict [(''Error'', PStr (''Unsupported LLM type '' @ lm_type llm))]))))
      \<and> (0 < c \<longrightarrow>
           (\<exists>ares s2. arun_on_examples rt co examples (LanguageModel llm) c n session_name tgs
                         (one_by_one (nat n) (length examples)) s = Some (Inr ares, s2))))"
proof
  assume k: "lm_kind llm = OtherLanguageModel"
  let ?e = "ValueError (''Unsupported LLM type '' @ lm_type llm)"
  let ?r = "PDict [(''Error'', PStr (''Unsupported LLM type '' @ lm_type llm))]"
  let ?name = "case session_name of
                  Some name \<Rightarrow> name
                | None \<Rightarrow> lm_class_name llm @ ''-'' @ current_time co"
  have r: "run_llm rt llm inps cbs tgs s = (Inl ?e, s)" for rt inps cbs tgs and s :: "'a state"
    using k by (simp add: run_llm_def)
  have ar: "arun_llm rt llm inps tgs cbs s = (Inl ?e, s)" for rt inps cbs tgs and s :: "'a state"
    using k by (simp add: arun_llm_def)
  have t: "try_attempt rt ex (LanguageModel llm) tgs cbs s = (Inl ?e, s)"
    for rt ex cbs tgs and s :: "'a state"
    by (simp add: try_attempt_def r)
  have at: "atry_attempt rt ex (LanguageModel llm) tgs cbs s = (Inl ?e, s)"
    for rt ex cbs tgs and s :: "'a state"
    by (simp add: atry_attempt_def ar)
  have l: "fst (run_llm_or_chain rt ex (LanguageModel llm) n tgs cbs s) = replicate (nat n) ?r"
    for rt ex cbs tgs n and s :: "'a state"
    by (simp add: run_llm_or_chain_fst repeat_attempts_const_failure [OF t] error_record_def)
  have al: "fst (arun_llm_or_chain rt ex (LanguageModel llm) n tgs cbs s) = replicate (nat n) ?r"
    by (simp add: arun_llm_or_chain_fst repeat_attempts_const_failure [OF at] error_record_def)
  have g: "get_session_name co session_name (LanguageModel llm) None s = (Inr ?name, s)"
    by (simp add: get_session_name_LanguageModel split: option.splits)
  have b: "\<not> isl (fst (run_on_examples rt co examples (LanguageModel llm) n session_name tgs s))
      \<and> (\<forall>x \<in> set examples.
            projr (fst (run_on_examples rt co examples (LanguageModel llm) n session_name tgs s))
              (str_uuid co (ex_id x)) = Some (replicate (nat n) ?r))
      \<and> (0 \<le> c
           \<and> arun_on_examples rt co examples (LanguageModel llm) c n session_name tgs schedule s
               = Some (r, s1) \<longrightarrow>
           \<not> isl r
         \<and> (\<forall>x \<in> set examples.
               projr r (str_uuid co (ex_id x)) = Some (replicate (nat n) ?r)))
      \<and> (0 < c \<longrightarrow>
           (\<exists>ares s2. arun_on_examples rt co examples (LanguageModel llm) c n session_name tgs
                         (one_by_one (nat n) (length examples)) s = Some (Inr ares, s2)))"
    if c: "fst (create_session co ?name (ext s)) = None"
  proof (intro conjI impI)
    from run_on_examples_session_ok [OF g c] obtain cbs' s4 where
      ro: "fst (run_on_examples rt co examples (LanguageModel llm) n session_name tgs s) =
           Inr (fst (examples_loop rt co (LanguageModel llm) n tgs cbs' examples Map.empty s4))"
      by blast
    have en: "fst (examples_loop rt co (LanguageModel llm) n tgs cbs' examples Map.empty s4)
            (str_uuid co (ex_id x)) = Some (replicate (nat n) ?r)"
      if "x \<in> set examples" for x
      using examples_loop_entries [where Q = "\<lambda>y outs. outs = replicate (nat n) ?r" and rt = rt
          and task = "LanguageModel llm" and n = n and tgs = tgs and cbs = cbs' and x = x
          and examples = examples and co = co and res = Map.empty and s = s4] that l
      by auto
    show "\<not> isl (fst (run_on_examples rt co examples (LanguageModel llm) n session_name tgs s))"
      using ro by simp
    show "\<forall>x \<in> set examples.
            projr (fst (run_on_examples rt co examples (LanguageModel llm) n session_name tgs s))
              (str_uuid co (ex_id x)) = Some (replicate (nat n) ?r)"
      using ro en by simp
  next
    assume a: "0 \<le> c
           \<and> arun_on_examples rt co examples (LanguageModel llm) c n session_name tgs schedule s
               = Some (r, s1)"
    show nl: "\<not> isl r"
    proof
      assume "isl r"
      then obtain e where "r = Inl e" by (cases r) auto
      then show False
        using arun_on_examples_no_raise [OF g c, of c rt examples n tgs schedule e s1] a by simp
    qed
    then obtain ares where ares: "r = Inr ares" by (cases r) auto
    show "\<forall>x \<in> set examples. projr r (str_uuid co (ex_id x)) = Some (replicate (nat n) ?r)"
    proof
      fix x assume x: "x \<in> set examples"
      have A: "arun_on_examples rt co examples (LanguageModel llm) c n session_name tgs schedule s
                 = Some (Inr ares, s1)"
        using a ares by simp
      from arun_on_examples_entries [OF A, where P = "\<lambda>i out. out = ?r" and x = x] x
      obtain outs where o: "ares (str_uuid co (ex_id x)) = Some outs" "length outs = nat n"
        "\<forall>out \<in> set outs. out = ?r"
        by (auto simp: attempt_def at error_record_def)
      have "outs = replicate (length outs) ?r"
        using o(3) by (simp add: replicate_length_same)
      then show "projr r (str_uuid co (ex_id x)) = Some (replicate (nat n) ?r)"
        using o(1,2) ares by simp
    qed
  next
    assume "0 < c"
    then show "\<exists>ares s2. arun_on_examples rt co examples (LanguageModel llm) c n session_name tgs
                         (one_by_one (nat n) (length examples)) s = Some (Inr ares, s2)"
      using arun_on_examples_returns [OF g c] by blast
  qed
  show "run_llm rt llm inps cbs tgs s = (Inl ?e, s)
   \<and> arun_llm rt llm inps tgs cbs s = (Inl ?e, s)
   \<and> fst (run_llm_or_chain rt ex (LanguageModel llm) n tgs cbs s) = replicate (nat n) ?r
   \<and> fst (arun_llm_or_chain rt ex (LanguageModel llm) n tgs cbs s) = replicate (nat n) ?r
   \<and> (fst (create_session co ?name (ext s)) = None \<longrightarrow>
        \<not> isl (fst (run_on_examples rt co examples (LanguageModel llm) n session_name tgs s))
      \<and> (\<forall>x \<in> set examples.
            projr (fst (run_on_examples rt co examples (LanguageModel llm) n session_name tgs s))
              (str_uuid co (ex_id x)) = Some (replicate (nat n) ?r))
      \<and> (0 \<le> c
           \<and> arun_on_examples rt co examples (LanguageModel llm) c n session_name tgs schedule s
               = Some (r, s1) \<longrightarrow>
           \<not> isl r
         \<and> (\<forall>x \<in> set examples.
               projr r (str_uuid co (ex_id x)) = Some (replicate (nat n) ?r)))
      \<and> (0 < c \<longrightarrow>
           (\<exists>ares s2. arun_on_examples rt co examples (LanguageModel llm) c n session_name tgs
                         (one_by_one (nat n) (length examples)) s = Some (Inr ares, s2))))"
    using r ar l al b by blast
qed

theorem unsupported_model_recorded_witness:
  "lm_kind (demo_llm OtherLanguageModel) = OtherLanguageModel
 \<and> fst (run_llm demo_runtime (demo_llm OtherLanguageModel) [(''prompt'', PStr ''hi'')] None None
          demo_state) = Inl (ValueError ''Unsupported LLM type <class 'FakeLLM'>'')
 \<and> fst (arun_llm_or_chain demo_runtime (demo_example 1)
          (LanguageModel (demo_llm OtherLanguageModel)) 2 None None demo_state)
      = [PDict [(''Error'', PStr ''Unsupported LLM type <class 'FakeLLM'>'')],
         PDict [(''Error'', PStr ''Unsupported LLM type <class 'FakeLLM'>'')]]
 \<and> fst (create_session demo_collaborators ''session'' (ext demo_state)) = None
 \<and> projr (fst (run_on_examples demo_runtime demo_collaborators [demo_example 1, demo_example 2]
                 (LanguageModel (demo_llm OtherLanguageModel)) 2 (Some ''session'') None
                 demo_state)) ''11''
      = Some [PDict [(''Error'', PStr ''Unsupported LLM type <class 'FakeLLM'>'')],
              PDict [(''Error'', PStr ''Unsupported LLM type <class 'FakeLLM'>'')]]
 \<and> (0::int) < 2
 \<and> arun_on_examples demo_runtime demo_collaborators [demo_example 1, demo_example 2]
      (LanguageModel (demo_llm OtherLanguageModel)) 2 2 (Some ''session'') None (one_by_one 2 2)
      demo_state \<noteq> None
 \<and> \<not> isl (fst (the (arun_on_examples demo_runtime demo_collaborators
      [demo_example 1, demo_example 2] (LanguageModel (demo_llm OtherLanguageModel)) 2 2
      (Some ''session'') None (one_by_one 2 2) demo_state)))
 \<and> projr (fst (the (arun_on_examples demo_runtime demo_collaborators
      [demo_example 1, demo_example 2] (LanguageModel (demo_llm OtherLanguageModel)) 2 2
      (Some ''session'') None (one_by_one 2 2) demo_state))) ''11''
      = Some [PDict [(''Error'', PStr ''Unsupported LLM type <class 'FakeLLM'>'')],
              PDict [(''Error'', PStr ''Unsupported LLM type <class 'FakeLLM'>'')]]"
proof -
  let ?llm = "demo_llm OtherLanguageModel"
  let ?xs = "[demo_example 1, demo_example 2]"
  let ?A = "arun_on_examples demo_runtime demo_collaborators ?xs (LanguageModel ?llm) 2 2
              (Some ''session'') None (one_by_one 2 2) demo_state"
  let ?err = "PDict [(''Error'', PStr ''Unsupported LLM type <class 'FakeLLM'>'')]"
  have k: "lm_kind ?llm = OtherLanguageModel" by (simp add: demo_llm_def)
  have c: "fst (create_session demo_collaborators
                 (case Some ''session'' of Some name \<Rightarrow> name
                  | None \<Rightarrow> lm_class_name ?llm @ ''-'' @ current_time demo_collaborators)
                 (ext demo_state)) = None"
    by (simp add: demo_collaborators_def)
  have pos: "(0::int) < 2" "(0::int) \<le> 2" by simp_all
  have m: "demo_example 2 \<in> set ?xs" by simp
  have k2: "str_uuid demo_collaborators (ex_id (demo_example 2)) = ''11''"
    by (simp add: demo_collaborators_def demo_example_def numeral_2_eq_2)
  have t: "lm_type ?llm = ''<class 'FakeLLM'>''" by (simp add: demo_llm_def)
  have rp: "replicate (nat 2) ?err = [?err, ?err]" by (simp add: numeral_2_eq_2)
  note th = unsupported_model_recorded [where llm = ?llm and rt = demo_runtime
      and inps = "[(''prompt'', PStr ''hi'')]" and cbs = None and tgs = None and s = demo_state
      and ex = "demo_example 1" and n = 2 and co = demo_collaborators
      and session_name = "Some ''session''" and examples = ?xs and c = 2
      and schedule = "one_by_one 2 2" and r = "fst (the ?A)" and ?s1.0 = "snd (the ?A)",
      THEN mp, OF k]
  note batch = th [THEN conjunct2, THEN conjunct2, THEN conjunct2, THEN conjunct2, THEN mp, OF c]
  have l1: "fst (run_llm demo_runtime ?llm [(''prompt'', PStr ''hi'')] None None demo_state)
              = Inl (ValueError ''Unsupported LLM type <class 'FakeLLM'>'')"
    using th [THEN conjunct1] by (simp add: t)
  have l2: "fst (arun_llm_or_chain demo_runtime (demo_example 1) (LanguageModel ?llm) 2 None None
                   demo_state) = [?err, ?err]"
    using th [THEN conjunct2, THEN conjunct2, THEN conjunct2, THEN conjunct1]
    by (simp add: t numeral_2_eq_2)
  have sq: "projr (fst (run_on_examples demo_runtime demo_collaborators ?xs (LanguageModel ?llm) 2
                     (Some ''session'') None demo_state)) ''11'' = Some [?err, ?err]"
    using batch [THEN conjunct2, THEN conjunct1, rule_format, OF m]
    by (simp add: demo_collaborators_def demo_example_def t numeral_2_eq_2)
  from batch [THEN conjunct2, THEN conjunct2, THEN conjunct2, THEN mp, OF pos(1)]
  obtain ares s2 where "arun_on_examples demo_runtime demo_collaborators ?xs (LanguageModel ?llm)
      2 2 (Some ''session'') None (one_by_one (nat 2) (length ?xs)) demo_state = Some (Inr ares, s2)"
    by blast
  moreover have "nat 2 = 2" "length ?xs = 2" by simp_all
  ultimately have A: "?A = Some (Inr ares, s2)" by (simp only:)
  then have A2: "?A = Some (fst (the ?A), snd (the ?A))" by simp
  from batch [THEN conjunct2, THEN conjunct2, THEN conjunct1, THEN mp, OF conjI, OF pos(2) A2]
  have cq: "\<not> isl (fst (the ?A))"
    "projr (fst (the ?A)) ''11'' = Some [?err, ?err]"
    using m by (simp_all add: demo_collaborators_def demo_example_def t numeral_2_eq_2)
  show ?thesis using k l1 l2 c sq pos(1) A cq by simp
qed

end
